theory Spec2Isabelle
  imports
    Main
    "HOL-Library.Word"
    "HOL-Library.Sublist"
    "HOL-Library.AList"
    "HOL-Library.Char_ord"
    "HOL-Library.List_Lexorder"
begin

section \<open>Values, documents and signatures (types.ts)\<close>

text \<open>
  A byte of a \<^verbatim>\<open>Uint8Array\<close> is an 8-bit word. Strings are lists of characters; the
  default \<^verbatim>\<open>Array.prototype.sort\<close> compares strings by code unit, which on
  \<^typ>\<open>string\<close> is the lexicographic order of \<^typ>\<open>char\<close>.
\<close>

type_synonym byte = "8 word"

text \<open>
  The values a document field can hold (\<^verbatim>\<open>[key: string]: any\<close>). An object keeps its
  properties in insertion order, so it is an association list.
\<close>

datatype json =
    JNull
  | JBool bool
  | JNum int
  | JStr string
  | JArr "json list"
  | JObj "(string \<times> json) list"

text \<open>
  \<^verbatim>\<open>interface Signature { signature: string; publicKey: string; algorithm: string;
  timestamp: number }\<close>. The verifier tests \<^verbatim>\<open>publicKey\<close> for presence and for
  \<^verbatim>\<open>typeof ... === 'string'\<close> at run time, so that one field keeps its dynamic
  type: \<open>None\<close> is a missing (undefined) property, \<open>Some (JStr s)\<close> a string.
\<close>

record Signature =
  signature :: string
  publicKey :: "json option"
  algorithm :: string
  timestamp :: int

text \<open>
  \<^verbatim>\<open>interface EnactDocument { ...; signatures?: Signature[]; [key: string]: any }\<close>:
  the typed optional \<^verbatim>\<open>signatures\<close> array, and every other property as an open
  association list.
\<close>

record EnactDocument =
  signatures :: "Signature list option"
  properties :: "(string \<times> json) list"

definition sig_json :: "Signature \<Rightarrow> json" where
  "sig_json s =
     JObj ([(''signature'', JStr (signature s))]
           @ (case publicKey s of None \<Rightarrow> [] | Some v \<Rightarrow> [(''publicKey'', v)])
           @ [(''algorithm'', JStr (algorithm s)), (''timestamp'', JNum (timestamp s))])"

text \<open>
  \<^verbatim>\<open>document[fieldName]\<close> of an own property; \<open>None\<close> is \<^verbatim>\<open>undefined\<close>.
\<close>

definition doc_get :: "EnactDocument \<Rightarrow> string \<Rightarrow> json option" where
  "doc_get d k =
     (if k = ''signatures'' then map_option (\<lambda>ss. JArr (map sig_json ss)) (signatures d)
      else map_of (properties d) k)"


text \<open>
  An optional property of a configuration object: absent, present with a nullish value
  (\<^verbatim>\<open>undefined\<close> or \<^verbatim>\<open>null\<close>), or present with a value. Object spread copies
  every own property, the nullish ones too.
\<close>

datatype 'a optional = Absent | Nullish | Present 'a

record SecurityConfig =
  allowLocalUnsigned :: "bool optional"
  minimumSignatures :: "int optional"

definition DEFAULT_SECURITY_CONFIG :: SecurityConfig where
  "DEFAULT_SECURITY_CONFIG = \<lparr>allowLocalUnsigned = Present True, minimumSignatures = Present 1\<rparr>"

text \<open>One property of \<^verbatim>\<open>{ ...a, ...b }\<close>.\<close>

fun spread_prop :: "'a optional \<Rightarrow> 'a optional \<Rightarrow> 'a optional" where
  "spread_prop a Absent = a"
| "spread_prop a b = b"

definition spread :: "SecurityConfig \<Rightarrow> SecurityConfig \<Rightarrow> SecurityConfig" where
  "spread a b =
     \<lparr>allowLocalUnsigned = spread_prop (allowLocalUnsigned a) (allowLocalUnsigned b),
      minimumSignatures = spread_prop (minimumSignatures a) (minimumSignatures b)\<rparr>"

text \<open>\<^verbatim>\<open>x ?? d\<close> and the truthiness of an optional boolean.\<close>

fun nullish_or :: "'a optional \<Rightarrow> 'a \<Rightarrow> 'a" where
  "nullish_or (Present v) d = v"
| "nullish_or _ d = d"

fun truthy :: "bool optional \<Rightarrow> bool" where
  "truthy (Present b) = b"
| "truthy _ = False"

datatype error =
    MissingRequiredField string
  | HexError
  | CryptoError
  | Base64Error
  | UnsupportedPublicKeyFormat nat
  | PrivateKeyNotFound
  | InvalidPrivateKeyLength nat
  | KeyAlreadyExists string
  | StoreKeyFailed string error
  | TypeError
  | IOError

text \<open>
  \<^verbatim>\<open>document.hasOwnProperty(fieldName)\<close>. The method is looked up on the document
  itself: an own property named \<^verbatim>\<open>hasOwnProperty\<close> shadows the one inherited from
  \<^verbatim>\<open>Object.prototype\<close>, and since it holds a value that is not a function, the call
  throws a \<^verbatim>\<open>TypeError\<close>.
\<close>

definition hasOwnProperty :: "EnactDocument \<Rightarrow> string \<Rightarrow> error + bool" where
  "hasOwnProperty d k =
     (if doc_get d ''hasOwnProperty'' \<noteq> None then Inl TypeError
      else Inr (doc_get d k \<noteq> None))"

section \<open>Field selection (fieldConfig.ts)\<close>

record FieldConfig =
  name :: string
  required :: bool
  securityCritical :: bool
  description :: "string option"

record FieldSelection =
  includeFields :: "string list option"
  excludeFields :: "string list option"
  additionalCriticalFields :: "string list option"

record SigningFieldOptions = FieldSelection +
  customFieldConfig :: "FieldConfig list option"

record SigningOptions = FieldSelection +
  useEnactDefaults :: "bool option"

definition ENACT_DEFAULT_CRITICAL_FIELDS :: "FieldConfig list" where
  "ENACT_DEFAULT_CRITICAL_FIELDS =
    [\<lparr>name = ''annotations'', required = False, securityCritical = True,
        description = Some ''Security behavior hints''\<rparr>,
     \<lparr>name = ''command'', required = True, securityCritical = True,
        description = Some ''The actual execution payload''\<rparr>,
     \<lparr>name = ''description'', required = True, securityCritical = True,
        description = Some ''What the tool claims to do''\<rparr>,
     \<lparr>name = ''enact'', required = False, securityCritical = True,
        description = Some ''Protocol version security''\<rparr>,
     \<lparr>name = ''env'', required = False, securityCritical = True,
        description = Some ''Environment variables''\<rparr>,
     \<lparr>name = ''from'', required = False, securityCritical = True,
        description = Some ''Container image (critical for security)''\<rparr>,
     \<lparr>name = ''inputSchema'', required = False, securityCritical = True,
        description = Some ''Defines the attack surface''\<rparr>,
     \<lparr>name = ''name'', required = True, securityCritical = True,
        description = Some ''Tool identity (prevents impersonation)''\<rparr>,
     \<lparr>name = ''timeout'', required = False, securityCritical = True,
        description = Some ''Prevents DoS attacks''\<rparr>,
     \<lparr>name = ''version'', required = False, securityCritical = True,
        description = Some ''Tool version for compatibility''\<rparr>]"

definition GENERIC_DEFAULT_FIELDS :: "FieldConfig list" where
  "GENERIC_DEFAULT_FIELDS =
    [\<lparr>name = ''id'', required = True, securityCritical = True,
        description = Some ''Document identifier''\<rparr>,
     \<lparr>name = ''content'', required = True, securityCritical = True,
        description = Some ''Document content''\<rparr>,
     \<lparr>name = ''timestamp'', required = True, securityCritical = True,
        description = Some ''Creation timestamp''\<rparr>,
     \<lparr>name = ''metadata'', required = False, securityCritical = False,
        description = Some ''Additional metadata''\<rparr>]"

text \<open>
  \<^verbatim>\<open>isEmpty(value)\<close>: null or undefined, the empty string, an array of length 0, an
  object with no keys.
\<close>

fun isEmpty :: "json option \<Rightarrow> bool" where
  "isEmpty None = True"
| "isEmpty (Some JNull) = True"
| "isEmpty (Some (JStr s)) = (s = [])"
| "isEmpty (Some (JArr xs)) = (xs = [])"
| "isEmpty (Some (JObj kvs)) = (kvs = [])"
| "isEmpty (Some (JBool b)) = False"
| "isEmpty (Some (JNum n)) = False"

definition isNonEmpty :: "json option \<Rightarrow> bool" where
  "isNonEmpty v = (\<not> isEmpty v)"

text \<open>
  The \<^verbatim>\<open>for ... of\<close> loop of \<^verbatim>\<open>validateRequiredFields\<close>, with the test
  \<^verbatim>\<open>!document.hasOwnProperty(requiredField) || this.isEmpty(document[requiredField])\<close>:
  the first required field that is missing or empty throws, and so does the call of
  \<^verbatim>\<open>hasOwnProperty\<close> when the document shadows it.
\<close>

fun validate_loop :: "EnactDocument \<Rightarrow> string list \<Rightarrow> error + unit" where
  "validate_loop d [] = Inr ()"
| "validate_loop d (requiredField # rest) =
     (case hasOwnProperty d requiredField of
        Inl e \<Rightarrow> Inl e
      | Inr own \<Rightarrow>
          if \<not> own \<or> isEmpty (doc_get d requiredField)
          then Inl (MissingRequiredField requiredField)
          else validate_loop d rest)"

definition validateRequiredFields ::
  "EnactDocument \<Rightarrow> FieldConfig list \<Rightarrow> string list \<Rightarrow> error + unit" where
  "validateRequiredFields d config fieldsToInclude =
     (let requiredFieldsToInclude =
            map name (filter (\<lambda>field. required field \<and> name field \<in> set fieldsToInclude) config)
      in validate_loop d requiredFieldsToInclude)"

text \<open>
  The body of the \<^verbatim>\<open>forEach\<close>: \<^verbatim>\<open>canonical[fieldName] = value\<close> when the value is
  non-empty. Assigning a key that is already there keeps its place. The list is in
  insertion order, which is the order of the object's keys unless a key is an array index.
\<close>

definition canonical_step :: "EnactDocument \<Rightarrow> (string \<times> json) list \<Rightarrow> string \<Rightarrow> (string \<times> json) list" where
  "canonical_step d canonical fieldName =
     (case doc_get d fieldName of
        None \<Rightarrow> canonical
      | Some v \<Rightarrow> if isNonEmpty (Some v) then AList.update fieldName v canonical else canonical)"

text \<open>
  The first half of \<^verbatim>\<open>createCanonicalObject\<close>: the active configuration
  (\<^verbatim>\<open>customFieldConfig || this.fieldConfigs\<close>) and the names bound to
  \<^verbatim>\<open>fieldsToInclude\<close> once the excluded ones are removed.
\<close>

definition activeConfig :: "FieldConfig list \<Rightarrow> SigningFieldOptions \<Rightarrow> FieldConfig list" where
  "activeConfig fieldConfigs opts =
     (case customFieldConfig opts of None \<Rightarrow> fieldConfigs | Some c \<Rightarrow> c)"

definition fieldsToInclude :: "FieldConfig list \<Rightarrow> SigningFieldOptions \<Rightarrow> string list" where
  "fieldsToInclude fieldConfigs opts =
     (let excluded = (case excludeFields opts of None \<Rightarrow> [] | Some e \<Rightarrow> e);
          additional = (case additionalCriticalFields opts of None \<Rightarrow> [] | Some a \<Rightarrow> a);
          chosen =
            (case includeFields opts of
               Some incl \<Rightarrow> incl
             | None \<Rightarrow>
                 map name (filter securityCritical (activeConfig fieldConfigs opts)) @ additional)
      in filter (\<lambda>field. field \<notin> set excluded) chosen)"

text \<open>
  \<^verbatim>\<open>createCanonicalObject(document, options)\<close> of a selector whose instance
  configuration is \<open>fieldConfigs\<close>: validate, then fill the canonical object in sorted
  order.
\<close>

definition createCanonicalObject ::
  "FieldConfig list \<Rightarrow> EnactDocument \<Rightarrow> SigningFieldOptions \<Rightarrow> error + (string \<times> json) list" where
  "createCanonicalObject fieldConfigs d opts =
     (case validateRequiredFields d (activeConfig fieldConfigs opts)
             (fieldsToInclude fieldConfigs opts) of
        Inl e \<Rightarrow> Inl e
      | Inr _ \<Rightarrow> Inr (foldl (canonical_step d) [] (sort (fieldsToInclude fieldConfigs opts))))"

section \<open>Hex codec (@noble/hashes/utils)\<close>

text \<open>
  \<^verbatim>\<open>hexToBytes\<close> and \<^verbatim>\<open>bytesToHex\<close> are library functions. \<^verbatim>\<open>hexToBytes\<close>
  throws on a string of odd length or with a character outside \<^verbatim>\<open>0-9a-fA-F\<close>;
  \<^verbatim>\<open>bytesToHex\<close> writes two lower-case digits per byte.
\<close>

definition asciiToBase16 :: "char \<Rightarrow> nat option" where
  "asciiToBase16 c =
     (let n = (of_char c :: nat)
      in if 48 \<le> n \<and> n \<le> 57 then Some (n - 48)
         else if 65 \<le> n \<and> n \<le> 70 then Some (n - 55)
         else if 97 \<le> n \<and> n \<le> 102 then Some (n - 87)
         else None)"

fun hexToBytes :: "string \<Rightarrow> error + byte list" where
  "hexToBytes [] = Inr []"
| "hexToBytes [c] = Inl HexError"
| "hexToBytes (c1 # c2 # rest) =
     (case (asciiToBase16 c1, asciiToBase16 c2) of
        (Some n1, Some n2) \<Rightarrow>
          (case hexToBytes rest of
             Inl e \<Rightarrow> Inl e
           | Inr bs \<Rightarrow> Inr (of_nat (n1 * 16 + n2) # bs))
      | _ \<Rightarrow> Inl HexError)"

text \<open>The digit of a value below 16: \<^verbatim>\<open>0\<close> to \<^verbatim>\<open>9\<close>, then \<^verbatim>\<open>a\<close> to \<^verbatim>\<open>f\<close>.\<close>

definition hex_digit :: "nat \<Rightarrow> char" where
  "hex_digit n = (if n < 10 then char_of (48 + n) else char_of (87 + n))"

definition byte_hex :: "byte \<Rightarrow> string" where
  "byte_hex b = [hex_digit (unat b div 16), hex_digit (unat b mod 16)]"

definition bytesToHex :: "byte list \<Rightarrow> string" where
  "bytesToHex bs = concat (map byte_hex bs)"

section \<open>Crypto primitives (crypto.ts)\<close>

text \<open>
  What the code calls outside the repository: SHA-256 and the secp256k1 operations of
  @noble, and \<^verbatim>\<open>JSON.stringify\<close> (the second argument is the indentation). An
  operation that can throw returns an \<^typ>\<open>error\<close> on the left.
\<close>

record lib =
  sha256 :: "string \<Rightarrow> byte list"
  secp256k1_getPublicKey :: "byte list \<Rightarrow> error + byte list"
  secp256k1_sign :: "byte list \<Rightarrow> byte list \<Rightarrow> error + string"
  secp256k1_verify :: "string \<Rightarrow> byte list \<Rightarrow> byte list \<Rightarrow> error + bool"
  JSON_stringify :: "json \<Rightarrow> nat option \<Rightarrow> string"

definition getPublicKeyFromPrivate :: "lib \<Rightarrow> string \<Rightarrow> error + string" where
  "getPublicKeyFromPrivate L privateKeyHex =
     (case hexToBytes privateKeyHex of
        Inl e \<Rightarrow> Inl e
      | Inr privateKey \<Rightarrow>
          (case secp256k1_getPublicKey L privateKey of
             Inl e \<Rightarrow> Inl e
           | Inr pub \<Rightarrow> Inr (bytesToHex pub)))"

definition hash :: "lib \<Rightarrow> string \<Rightarrow> string" where
  "hash L data = bytesToHex (sha256 L data)"

definition sign :: "lib \<Rightarrow> string \<Rightarrow> string \<Rightarrow> error + string" where
  "sign L privateKeyHex messageHash =
     (case hexToBytes privateKeyHex of
        Inl e \<Rightarrow> Inl e
      | Inr privateKey \<Rightarrow>
          (case hexToBytes messageHash of
             Inl e \<Rightarrow> Inl e
           | Inr h \<Rightarrow> secp256k1_sign L h privateKey))"

text \<open>The body of the \<^verbatim>\<open>try\<close> block of \<^verbatim>\<open>CryptoUtils.verify\<close>.\<close>

definition verify_try :: "lib \<Rightarrow> string \<Rightarrow> string \<Rightarrow> string \<Rightarrow> error + bool" where
  "verify_try L publicKeyHex messageHash signatureHex =
     (case hexToBytes publicKeyHex of
        Inl e \<Rightarrow> Inl e
      | Inr pub \<Rightarrow>
          (case hexToBytes messageHash of
             Inl e \<Rightarrow> Inl e
           | Inr h \<Rightarrow> secp256k1_verify L signatureHex h pub))"

text \<open>\<^verbatim>\<open>try { ... } catch { return false; }\<close>\<close>

definition verify :: "lib \<Rightarrow> string \<Rightarrow> string \<Rightarrow> string \<Rightarrow> error + bool" where
  "verify L publicKeyHex messageHash signatureHex =
     (case verify_try L publicKeyHex messageHash signatureHex of
        Inl e \<Rightarrow> Inr False
      | Inr b \<Rightarrow> Inr b)"

section \<open>Signing service (signing.ts)\<close>

text \<open>
  \<^verbatim>\<open>Array.prototype.every\<close> and \<^verbatim>\<open>some\<close> with a callback that can throw: both
  stop at the first deciding element, and an exception of the callback leaves the loop.
\<close>

fun every :: "('a \<Rightarrow> error + bool) \<Rightarrow> 'a list \<Rightarrow> error + bool" where
  "every f [] = Inr True"
| "every f (x # xs) =
     (case f x of Inl e \<Rightarrow> Inl e | Inr b \<Rightarrow> if b then every f xs else Inr False)"

fun some :: "('a \<Rightarrow> error + bool) \<Rightarrow> 'a list \<Rightarrow> error + bool" where
  "some f [] = Inr False"
| "some f (x # xs) =
     (case f x of Inl e \<Rightarrow> Inl e | Inr b \<Rightarrow> if b then Inr True else some f xs)"

text \<open>
  The white space of \<^verbatim>\<open>String.prototype.trim\<close> and of the regular expression
  \<^verbatim>\<open>\s\<close>, among the code units a \<^typ>\<open>char\<close> can hold: TAB, LF, VT, FF, CR, SP and
  NBSP.
\<close>

definition js_whitespace :: "char \<Rightarrow> bool" where
  "js_whitespace c = ((of_char c :: nat) \<in> {9, 10, 11, 12, 13, 32, 160})"

definition trim :: "string \<Rightarrow> string" where
  "trim s = rev (dropWhile js_whitespace (rev (dropWhile js_whitespace s)))"

text \<open>
  \<^verbatim>\<open>sig.publicKey && typeof sig.publicKey === 'string' && sig.publicKey.trim() !== ''\<close>
\<close>

definition hasValidPublicKey :: "Signature \<Rightarrow> bool" where
  "hasValidPublicKey sg =
     (case publicKey sg of
        Some (JStr s) \<Rightarrow> s \<noteq> [] \<and> trim s \<noteq> []
      | _ \<Rightarrow> False)"

text \<open>\<^verbatim>\<open>trustedPublicKeys.includes(sig.publicKey)\<close>\<close>

definition includes_key :: "string list \<Rightarrow> json option \<Rightarrow> bool" where
  "includes_key trustedPublicKeys v =
     (case v of Some (JStr s) \<Rightarrow> s \<in> set trustedPublicKeys | _ \<Rightarrow> False)"

text \<open>
  The callback of \<^verbatim>\<open>trustedPublicKeys.some\<close>:
  \<^verbatim>\<open>try { return CryptoUtils.verify(trustedKey, messageHash, sig.signature); }
  catch { return false; }\<close>
\<close>

definition try_trusted_key :: "lib \<Rightarrow> string \<Rightarrow> Signature \<Rightarrow> string \<Rightarrow> error + bool" where
  "try_trusted_key L messageHash sg trustedKey =
     (case verify L trustedKey messageHash (signature sg) of
        Inl e \<Rightarrow> Inr False
      | Inr b \<Rightarrow> Inr b)"

text \<open>
  The callback of \<^verbatim>\<open>signatures.every\<close>. In the standard case the public key is a
  string; the last branch is what \<^verbatim>\<open>CryptoUtils.verify\<close> returns for any other
  value, whose \<^verbatim>\<open>hexToBytes\<close> throws.
\<close>

definition verify_signature :: "lib \<Rightarrow> string \<Rightarrow> string list \<Rightarrow> Signature \<Rightarrow> error + bool" where
  "verify_signature L messageHash trustedPublicKeys sg =
     (if hasValidPublicKey sg \<and> includes_key trustedPublicKeys (publicKey sg)
      then (case publicKey sg of
              Some (JStr pk) \<Rightarrow> verify L pk messageHash (signature sg)
            | _ \<Rightarrow> Inr False)
      else some (try_trusted_key L messageHash sg) trustedPublicKeys)"

text \<open>
  What \<^verbatim>\<open>verifyDocument\<close> reads from the host: the result of
  \<^verbatim>\<open>SecurityConfigManager.loadConfig()\<close> and of
  \<^verbatim>\<open>KeyManager.getAllTrustedPublicKeys()\<close>.
\<close>

record host =
  loadConfig :: SecurityConfig
  getAllTrustedPublicKeys :: "string list"

definition fieldSelector :: "bool option \<Rightarrow> FieldConfig list" where
  "fieldSelector useEnact =
     (if useEnact = Some True then ENACT_DEFAULT_CRITICAL_FIELDS else GENERIC_DEFAULT_FIELDS)"

definition selection :: "SigningOptions \<Rightarrow> SigningFieldOptions" where
  "selection opts =
     \<lparr>includeFields = includeFields opts, excludeFields = excludeFields opts,
      additionalCriticalFields = additionalCriticalFields opts, customFieldConfig = None\<rparr>"

text \<open>\<^verbatim>\<open>const signatures = document.signatures || [signature]\<close>; an array is truthy.\<close>

definition signatures_to_verify :: "EnactDocument \<Rightarrow> Signature \<Rightarrow> Signature list" where
  "signatures_to_verify document sg =
     (case signatures document of Some ss \<Rightarrow> ss | None \<Rightarrow> [sg])"

definition effective_config :: "host \<Rightarrow> SecurityConfig option \<Rightarrow> SecurityConfig" where
  "effective_config H securityConfig =
     (let loadedConfig = (case securityConfig of Some c \<Rightarrow> c | None \<Rightarrow> loadConfig H)
      in spread DEFAULT_SECURITY_CONFIG loadedConfig)"

text \<open>
  \<^verbatim>\<open>verifyDocument\<close> from the threshold check on, for the effective configuration
  and the list bound to \<^verbatim>\<open>signatures\<close>.
\<close>

definition verify_signatures ::
  "lib \<Rightarrow> host \<Rightarrow> EnactDocument \<Rightarrow> SigningOptions \<Rightarrow> SecurityConfig \<Rightarrow> Signature list
     \<Rightarrow> error + bool" where
  "verify_signatures L H document opts config sigs =
     (if int (length sigs) < nullish_or (minimumSignatures config) 1 then
        (if truthy (allowLocalUnsigned config) \<and> length sigs = 0 then Inr True
         else Inr False)
      else
        (case createCanonicalObject (fieldSelector (useEnactDefaults opts)) document
                (selection opts) of
           Inl e \<Rightarrow> Inl e
         | Inr canonicalDocument \<Rightarrow>
             (let documentString = JSON_stringify L (JObj canonicalDocument) None;
                  messageHash = hash L documentString;
                  trustedPublicKeys = getAllTrustedPublicKeys H
              in every (verify_signature L messageHash trustedPublicKeys) sigs)))"

definition verifyDocument ::
  "lib \<Rightarrow> host \<Rightarrow> EnactDocument \<Rightarrow> Signature \<Rightarrow> SigningOptions \<Rightarrow> SecurityConfig option
     \<Rightarrow> error + bool" where
  "verifyDocument L H document sg opts securityConfig =
     verify_signatures L H document opts (effective_config H securityConfig)
       (signatures_to_verify document sg)"

text \<open>\<^verbatim>\<open>signDocument\<close>; \<open>now\<close> is the value of \<^verbatim>\<open>Date.now()\<close>.\<close>

definition signDocument ::
  "lib \<Rightarrow> int \<Rightarrow> EnactDocument \<Rightarrow> string \<Rightarrow> SigningOptions \<Rightarrow> error + Signature" where
  "signDocument L now document privateKey opts =
     (case createCanonicalObject (fieldSelector (useEnactDefaults opts)) document
             (selection opts) of
        Inl e \<Rightarrow> Inl e
      | Inr canonicalDocument \<Rightarrow>
          (let documentString = JSON_stringify L (JObj canonicalDocument) None;
               messageHash = hash L documentString
           in case sign L privateKey messageHash of
                Inl e \<Rightarrow> Inl e
              | Inr sg \<Rightarrow>
                  (case getPublicKeyFromPrivate L privateKey of
                     Inl e \<Rightarrow> Inl e
                   | Inr pk \<Rightarrow>
                       Inr \<lparr>signature = sg, publicKey = Some (JStr pk),
                            algorithm = ''secp256k1'', timestamp = now\<rparr>)))"

text \<open>
  \<^verbatim>\<open>createDocumentHash\<close>: the digest of the canonical document, computed as in
  \<^verbatim>\<open>signDocument\<close> and \<^verbatim>\<open>verifyDocument\<close>.
\<close>

definition createDocumentHash :: "lib \<Rightarrow> EnactDocument \<Rightarrow> SigningOptions \<Rightarrow> error + string" where
  "createDocumentHash L document opts =
     (case createCanonicalObject (fieldSelector (useEnactDefaults opts)) document
             (selection opts) of
        Inl e \<Rightarrow> Inl e
      | Inr canonicalDocument \<Rightarrow>
          (let documentString = JSON_stringify L (JObj canonicalDocument) None
           in Inr (hash L documentString)))"

text \<open>
  The signatures of the list that pass the per-signature check against the digest of the
  canonical document: the "valid signatures" whose number the policy threshold is about.
\<close>

definition valid_signatures ::
  "lib \<Rightarrow> host \<Rightarrow> EnactDocument \<Rightarrow> SigningOptions \<Rightarrow> Signature list \<Rightarrow> Signature list" where
  "valid_signatures L H document opts sigs =
     (case createCanonicalObject (fieldSelector (useEnactDefaults opts)) document
             (selection opts) of
        Inl e \<Rightarrow> []
      | Inr canonicalDocument \<Rightarrow>
          filter (\<lambda>s. verify_signature L
                         (hash L (JSON_stringify L (JObj canonicalDocument) None))
                         (getAllTrustedPublicKeys H) s = Inr True) sigs)"

section \<open>Base64 (RFC 4648), as \<^verbatim>\<open>btoa\<close>, \<^verbatim>\<open>atob\<close> and \<^verbatim>\<open>Buffer\<close> use it\<close>

text \<open>
  The alphabet \<^verbatim>\<open>A-Z a-z 0-9 + /\<close>: the character of a value below 64, and the
  value of a character.
\<close>

definition b64_char :: "nat \<Rightarrow> char" where
  "b64_char n =
     (if n < 26 then char_of (65 + n)
      else if n < 52 then char_of (71 + n)
      else if n < 62 then char_of (n - 4)
      else if n = 62 then CHR ''+''
      else CHR ''/'')"

definition b64_index :: "char \<Rightarrow> nat option" where
  "b64_index c =
     (let n = (of_char c :: nat)
      in if 65 \<le> n \<and> n \<le> 90 then Some (n - 65)
         else if 97 \<le> n \<and> n \<le> 122 then Some (n - 71)
         else if 48 \<le> n \<and> n \<le> 57 then Some (n + 4)
         else if n = 43 then Some 62
         else if n = 47 then Some 63
         else None)"

text \<open>
  The 6-bit groups of a byte string, the last one filled with zero bits; the encoding is
  their characters followed by the padding.
\<close>

fun sextets :: "byte list \<Rightarrow> nat list" where
  "sextets [] = []"
| "sextets [a] = (let n = unat a in [n div 4, (n mod 4) * 16])"
| "sextets [a, b] =
     (let n = unat a * 256 + unat b in [n div 1024, (n div 16) mod 64, (n mod 16) * 4])"
| "sextets (a # b # c # rest) =
     (let n = unat a * 65536 + unat b * 256 + unat c
      in [n div 262144, (n div 4096) mod 64, (n div 64) mod 64, n mod 64] @ sextets rest)"

definition b64encode :: "byte list \<Rightarrow> string" where
  "b64encode bs =
     map b64_char (sextets bs)
     @ (if length bs mod 3 = 1 then ''==''
        else if length bs mod 3 = 2 then ''=''
        else [])"

text \<open>The inverse grouping: 24 bits give three bytes, 18 bits two, 12 bits one.\<close>

fun unsextets :: "nat list \<Rightarrow> byte list" where
  "unsextets (a # b # c # d # rest) =
     (let n = a * 262144 + b * 4096 + c * 64 + d
      in [of_nat (n div 65536), of_nat ((n div 256) mod 256), of_nat (n mod 256)]
         @ unsextets rest)"
| "unsextets [a, b, c] =
     (let n = (a * 4096 + b * 64 + c) div 4 in [of_nat (n div 256), of_nat (n mod 256)])"
| "unsextets [a, b] = [of_nat ((a * 64 + b) div 16)]"
| "unsextets _ = []"

text \<open>
  \<^verbatim>\<open>atob\<close> is the forgiving-base64 decoder: ASCII white space is removed, one or two
  trailing \<^verbatim>\<open>=\<close> are removed when the length is a multiple of four, and a length of
  \<open>4k + 1\<close> or a character outside the alphabet throws.
\<close>

definition ascii_whitespace :: "char \<Rightarrow> bool" where
  "ascii_whitespace c = ((of_char c :: nat) \<in> {9, 10, 12, 13, 32})"

definition strip_padding :: "string \<Rightarrow> string" where
  "strip_padding data =
     (if length data mod 4 = 0 then
        (if 2 \<le> length data \<and> drop (length data - 2) data = ''=='' then take (length data - 2) data
         else if 1 \<le> length data \<and> drop (length data - 1) data = ''='' then take (length data - 1) data
         else data)
      else data)"

definition atob :: "string \<Rightarrow> error + byte list" where
  "atob s =
     (let data = strip_padding (filter (\<lambda>c. \<not> ascii_whitespace c) s)
      in if length data mod 4 = 1 then Inl Base64Error
         else if \<exists>c\<in>set data. b64_index c = None then Inl Base64Error
         else Inr (unsextets (map (\<lambda>c. the (b64_index c)) data)))"

section \<open>String operations of the PEM codec\<close>

text \<open>\<^verbatim>\<open>s.replace(pattern, '')\<close> with a string pattern: the first occurrence goes.\<close>

fun replace_first :: "string \<Rightarrow> string \<Rightarrow> string" where
  "replace_first pat [] = []"
| "replace_first pat (c # cs) =
     (if prefix pat (c # cs) then drop (length pat) (c # cs) else c # replace_first pat cs)"

text \<open>\<^verbatim>\<open>s.indexOf(pattern)\<close>: the first position where the pattern starts, or -1.\<close>

fun index_from :: "string \<Rightarrow> nat \<Rightarrow> string \<Rightarrow> int" where
  "index_from pat i [] = (if pat = [] then int i else - 1)"
| "index_from pat i (c # cs) =
     (if prefix pat (c # cs) then int i else index_from pat (Suc i) cs)"

definition indexOf :: "string \<Rightarrow> string \<Rightarrow> int" where
  "indexOf s pat = index_from pat 0 s"

text \<open>
  \<^verbatim>\<open>s.substring(start, end)\<close>: both ends are clamped to the string, and swapped when
  the start is behind the end.
\<close>

definition substring :: "string \<Rightarrow> int \<Rightarrow> int \<Rightarrow> string" where
  "substring s a b =
     (let n = int (length s);
          a' = max 0 (min a n);
          b' = max 0 (min b n)
      in take (nat (max a' b' - min a' b')) (drop (nat (min a' b')) s))"

text \<open>
  \<^verbatim>\<open>base64Key.match(/.{1,64}/g) || []\<close> on base64 text, which has no line
  terminator: the pieces of 64 characters, the last one shorter.
\<close>

function pemLines :: "string \<Rightarrow> string list" where
  "pemLines s = (if s = [] then [] else take 64 s # pemLines (drop 64 s))"
  by pat_completeness auto
termination
  by (relation "measure length") auto

declare pemLines.simps [simp del]

text \<open>\<^verbatim>\<open>lines.join('\n')\<close>\<close>

fun join_lines :: "string list \<Rightarrow> string" where
  "join_lines [] = []"
| "join_lines [l] = l"
| "join_lines (l # ls) = l @ [CHR 0x0A] @ join_lines ls"

text \<open>
  \<^verbatim>\<open>BigInt('0x' + y)\<close> for a string of hex digits, as \<^verbatim>\<open>bytesToHex\<close> writes them.
\<close>

definition BigInt_hex :: "string \<Rightarrow> nat" where
  "BigInt_hex y = foldl (\<lambda>acc c. acc * 16 + (case asciiToBase16 c of Some v \<Rightarrow> v | None \<Rightarrow> 0)) 0 y"

section \<open>PEM codec (crypto.ts of the host package and of the browser package)\<close>

datatype key_type = PUBLIC | PRIVATE

definition keyType :: "key_type \<Rightarrow> string" where
  "keyType t = (case t of PUBLIC \<Rightarrow> ''PUBLIC KEY'' | PRIVATE \<Rightarrow> ''PRIVATE KEY'')"

definition beginMarker :: "key_type \<Rightarrow> string" where
  "beginMarker t = ''-----BEGIN '' @ keyType t @ ''-----''"

definition endMarker :: "key_type \<Rightarrow> string" where
  "endMarker t = ''-----END '' @ keyType t @ ''-----''"

text \<open>The PEM text of DER bytes: the last lines of both \<^verbatim>\<open>hexToPem\<close>.\<close>

definition pem_format :: "key_type \<Rightarrow> byte list \<Rightarrow> string" where
  "pem_format t derBytes =
     join_lines ([beginMarker t] @ pemLines (b64encode derBytes) @ [endMarker t])"

definition publicDerPrefix :: string where
  "publicDerPrefix = ''3056301006072a8648ce3d020106052b8104000a034200''"

definition privateDerPrefix :: string where
  "privateDerPrefix = ''308184020100301006072a8648ce3d020106052b8104000a046d306b0201010420''"

definition privateDerPrefix_web :: string where
  "privateDerPrefix_web =
     ''308184020100301306072a8648ce3d020106082a8648ce3d030107046d306b0201010420''"

text \<open>
  \<^verbatim>\<open>hexToPem\<close>; the two packages differ in the prefix of a private key only, which is
  the first argument here.
\<close>

definition hexToPem_with :: "string \<Rightarrow> lib \<Rightarrow> string \<Rightarrow> key_type \<Rightarrow> error + string" where
  "hexToPem_with privPrefix L hexKey t =
     (case hexToBytes hexKey of
        Inl e \<Rightarrow> Inl e
      | Inr keyBytes \<Rightarrow>
          (case (case t of
                   PUBLIC \<Rightarrow> Inr (publicDerPrefix @ hexKey)
                 | PRIVATE \<Rightarrow>
                     (case getPublicKeyFromPrivate L hexKey of
                        Inl e \<Rightarrow> Inl e
                      | Inr pub \<Rightarrow> Inr (privPrefix @ hexKey @ ''a144034200'' @ pub))) of
             Inl e \<Rightarrow> Inl e
           | Inr derKey \<Rightarrow>
               (case hexToBytes derKey of
                  Inl e \<Rightarrow> Inl e
                | Inr derBytes \<Rightarrow> Inr (pem_format t derBytes))))"

definition hexToPem :: "lib \<Rightarrow> string \<Rightarrow> key_type \<Rightarrow> error + string" where
  "hexToPem = hexToPem_with privateDerPrefix"

definition hexToPem_web :: "lib \<Rightarrow> string \<Rightarrow> key_type \<Rightarrow> error + string" where
  "hexToPem_web = hexToPem_with privateDerPrefix_web"

text \<open>The text between the markers, white space removed: \<^verbatim>\<open>base64Content\<close>.\<close>

definition base64Content :: "string \<Rightarrow> key_type \<Rightarrow> string" where
  "base64Content pemKey t =
     filter (\<lambda>c. \<not> js_whitespace c)
       (replace_first (endMarker t) (replace_first (beginMarker t) pemKey))"

text \<open>
  \<^verbatim>\<open>pemToHex\<close> of the host package. \<^verbatim>\<open>Buffer.from(text, 'base64')\<close> belongs to the
  runtime and never throws; it is the first argument.
\<close>

definition pemToHex :: "(string \<Rightarrow> byte list) \<Rightarrow> string \<Rightarrow> key_type \<Rightarrow> string" where
  "pemToHex Buffer_from_base64 pemKey t =
     (let derBytes = Buffer_from_base64 (base64Content pemKey t);
          derHex = bytesToHex derBytes
      in case t of
           PUBLIC \<Rightarrow>
             (let publicKeyStart = indexOf derHex ''034200'' + 6
              in substring derHex publicKeyStart (publicKeyStart + 66))
         | PRIVATE \<Rightarrow>
             (let privateKeyStart = indexOf derHex ''0420'' + 4
              in substring derHex privateKeyStart (privateKeyStart + 64)))"

text \<open>\<^verbatim>\<open>pemToHex\<close> of the browser package, with the tolerant public-key cases.\<close>

definition pemToHex_web :: "string \<Rightarrow> key_type \<Rightarrow> error + string" where
  "pemToHex_web pemKey t =
     (case atob (base64Content pemKey t) of
        Inl e \<Rightarrow> Inl e
      | Inr derBytes \<Rightarrow>
          (let derHex = bytesToHex derBytes
           in case t of
                PUBLIC \<Rightarrow>
                  (let standardPrefixIndex = indexOf derHex ''034200''
                   in if standardPrefixIndex \<noteq> - 1 then
                        (let publicKeyStart = standardPrefixIndex + 6
                         in Inr (substring derHex publicKeyStart (publicKeyStart + 66)))
                      else if length derBytes = 33 \<and> (derBytes ! 0 = 0x02 \<or> derBytes ! 0 = 0x03)
                        then Inr derHex
                      else if length derBytes = 32 then Inr (''02'' @ derHex)
                      else if length derBytes = 65 \<and> derBytes ! 0 = 0x04 then
                        (let x = substring derHex 2 66;
                             y = substring derHex 66 130;
                             yBigInt = BigInt_hex y;
                             pre = (if yBigInt mod 2 = 0 then ''02'' else ''03'')
                         in Inr (pre @ x))
                      else if 32 \<le> length derBytes \<and> length derBytes \<le> 65 then Inr derHex
                      else Inl (UnsupportedPublicKeyFormat (length derBytes)))
              | PRIVATE \<Rightarrow>
                  (let privateKeyStart = indexOf derHex ''0420'' + 4
                   in if privateKeyStart = 3 then
                        (if length derBytes = 32 then Inr derHex else Inl PrivateKeyNotFound)
                      else
                        (let extractedKey = substring derHex privateKeyStart (privateKeyStart + 64)
                         in if length extractedKey \<noteq> 64
                            then Inl (InvalidPrivateKeyLength (length extractedKey))
                            else Inr extractedKey))))"

definition isPemFormat :: "string \<Rightarrow> bool" where
  "isPemFormat key = (indexOf key ''-----BEGIN'' \<noteq> - 1 \<and> indexOf key ''-----END'' \<noteq> - 1)"

text \<open>
  \<^verbatim>\<open>pemToHex(hexToPem(h, type), type)\<close> in each package; an exception of either call
  is the result.
\<close>

definition pem_roundtrip ::
  "(string \<Rightarrow> byte list) \<Rightarrow> lib \<Rightarrow> string \<Rightarrow> key_type \<Rightarrow> error + string" where
  "pem_roundtrip Buffer_from_base64 L h t =
     (case hexToPem L h t of
        Inl e \<Rightarrow> Inl e
      | Inr pem \<Rightarrow> Inr (pemToHex Buffer_from_base64 pem t))"

definition pem_roundtrip_web :: "lib \<Rightarrow> string \<Rightarrow> key_type \<Rightarrow> error + string" where
  "pem_roundtrip_web L h t =
     (case hexToPem_web L h t of
        Inl e \<Rightarrow> Inl e
      | Inr pem \<Rightarrow> pemToHex_web pem t)"

section \<open>Key manager (keyManager.ts)\<close>

record KeyPair =
  privateKey :: string
  publicKey :: string

text \<open>
  A path is the list of its components below the root. The part of the file system the
  key manager touches: \<^verbatim>\<open>os.homedir()\<close> (an absolute path), the regular files with
  their content, the directories (the root is always one), and the paths at which the
  operating system refuses to create, write or remove an entry (permissions, a read-only
  volume, a name it does not accept). Paths are POSIX paths; links are not modelled.
\<close>

type_synonym path = "string list"

record filesystem =
  homedir :: path
  files :: "path \<rightharpoonup> string"
  dirs :: "path set"
  denied :: "path set"

text \<open>
  \<^verbatim>\<open>path.join(dir, file)\<close> for a normalised absolute \<open>dir\<close>: the name is split at
  \<^verbatim>\<open>/\<close>, empty components and \<^verbatim>\<open>.\<close> are dropped, and \<^verbatim>\<open>..\<close> removes the
  component before it (at the root there is none to remove).
\<close>

fun split_path :: "string \<Rightarrow> string list" where
  "split_path [] = [[]]"
| "split_path (c # cs) =
     (if c = CHR ''/'' then [] # split_path cs
      else (case split_path cs of [] \<Rightarrow> [[c]] | s # ss \<Rightarrow> (c # s) # ss))"

definition normalize_step :: "path \<Rightarrow> string \<Rightarrow> path" where
  "normalize_step p s =
     (if s = [] \<or> s = ''.'' then p else if s = ''..'' then butlast p else p @ [s])"

definition path_join :: "path \<Rightarrow> string \<Rightarrow> path" where
  "path_join dir file = foldl normalize_step dir (split_path file)"

definition TRUSTED_KEYS_DIR :: "filesystem \<Rightarrow> path" where
  "TRUSTED_KEYS_DIR fs = homedir fs @ [''.enact'', ''trusted-keys'']"

definition PRIVATE_KEYS_DIR :: "filesystem \<Rightarrow> path" where
  "PRIVATE_KEYS_DIR fs = homedir fs @ [''.enact'', ''private-keys'']"

definition getPublicKeyPath :: "filesystem \<Rightarrow> string \<Rightarrow> path" where
  "getPublicKeyPath fs keyId = path_join (TRUSTED_KEYS_DIR fs) (keyId @ ''-public.pem'')"

definition getPrivateKeyPath :: "filesystem \<Rightarrow> string \<Rightarrow> path" where
  "getPrivateKeyPath fs keyId = path_join (PRIVATE_KEYS_DIR fs) (keyId @ ''-private.pem'')"

definition getMetadataPath :: "filesystem \<Rightarrow> string \<Rightarrow> path" where
  "getMetadataPath fs keyId = path_join (TRUSTED_KEYS_DIR fs) (keyId @ ''.meta'')"

text \<open>
  The functions of \<^verbatim>\<open>fs\<close> the key manager calls. \<^verbatim>\<open>existsSync\<close> is true of a file
  and of a directory. \<^verbatim>\<open>writeFileSync\<close> creates or replaces a file; it throws when
  the parent directory is missing, when the path is a directory, or when the system
  refuses. \<^verbatim>\<open>unlinkSync\<close> removes a file and throws on anything else.
  \<^verbatim>\<open>mkdirSync(dir, { recursive: true })\<close> does nothing when the directory is there,
  and otherwise creates it with its missing ancestors; it throws when a file is in the
  way or the system refuses.
\<close>

definition is_dir :: "filesystem \<Rightarrow> path \<Rightarrow> bool" where
  "is_dir fs p = (p = [] \<or> p \<in> dirs fs)"


definition writable :: "filesystem \<Rightarrow> path \<Rightarrow> bool" where
  "writable fs p = (is_dir fs (butlast p) \<and> \<not> is_dir fs p \<and> p \<notin> denied fs)"













text \<open>
  The options name a field: it is not excluded, and it is listed in
  \<^verbatim>\<open>includeFields\<close> or, when there is no such list, in
  \<^verbatim>\<open>additionalCriticalFields\<close>.
\<close>

definition names_field :: "SigningOptions \<Rightarrow> string \<Rightarrow> bool" where
  "names_field opts f =
     (f \<notin> set (case excludeFields opts of None \<Rightarrow> [] | Some e \<Rightarrow> e)
      \<and> (case includeFields opts of
            Some incl \<Rightarrow> f \<in> set incl
          | None \<Rightarrow> f \<in> set (case additionalCriticalFields opts of None \<Rightarrow> [] | Some a \<Rightarrow> a)))"

section \<open>Concrete inputs\<close>

text \<open>
  A stand-in for the external libraries, used to run the model on concrete inputs: the
  public key of a private key is the key itself (the empty key is invalid), a signature is
  the hex form of the private key, and it verifies under the public key with the same
  bytes (an empty signature throws).
\<close>

definition toy_lib :: lib where
  "toy_lib =
     \<lparr>sha256 = (\<lambda>data. []),
      secp256k1_getPublicKey = (\<lambda>sk. if sk = [] then Inl CryptoError else Inr sk),
      secp256k1_sign = (\<lambda>h sk. Inr (bytesToHex sk)),
      secp256k1_verify = (\<lambda>s h pk. if s = [] then Inl CryptoError else Inr (s = bytesToHex pk)),
      JSON_stringify = (\<lambda>j indent. [])\<rparr>"

definition default_host :: host where
  "default_host = \<lparr>loadConfig = DEFAULT_SECURITY_CONFIG, getAllTrustedPublicKeys = []\<rparr>"

definition no_options :: SigningOptions where
  "no_options =
     \<lparr>includeFields = None, excludeFields = None, additionalCriticalFields = None,
      useEnactDefaults = None\<rparr>"

definition generic_doc :: "Signature list option \<Rightarrow> EnactDocument" where
  "generic_doc ss =
     \<lparr>signatures = ss,
      properties = [(''id'', JStr ''1''), (''content'', JStr ''c''), (''timestamp'', JNum 7)]\<rparr>"

definition empty_doc :: "Signature list option \<Rightarrow> EnactDocument" where
  "empty_doc ss = \<lparr>signatures = ss, properties = []\<rparr>"

definition sig_of :: "string \<Rightarrow> json option \<Rightarrow> Signature" where
  "sig_of s pk = \<lparr>signature = s, publicKey = pk, algorithm = ''secp256k1'', timestamp = 0\<rparr>"

definition strict_config :: SecurityConfig where
  "strict_config = \<lparr>allowLocalUnsigned = Present False, minimumSignatures = Present 2\<rparr>"

definition keyless_sig :: Signature where
  "keyless_sig = sig_of ''cd'' (Some (JStr ''''))"

definition trusting_host :: host where
  "trusting_host = \<lparr>loadConfig = DEFAULT_SECURITY_CONFIG, getAllTrustedPublicKeys = [''ab'', ''cd'']\<rparr>"

definition signatures_option :: SigningOptions where
  "signatures_option = no_options\<lparr>includeFields := Some [''signatures'']\<rparr>"

text \<open>
  Keys and PEM texts: the compressed key and the short body of the package's PEM tests, the
  same key written with upper-case digits, a scalar, and a compressed key whose bytes
  contain \<^verbatim>\<open>03 42 00\<close>.
\<close>

definition raw_key :: "byte list" where
  "raw_key =
     [0x02, 0x8f, 0x49, 0xcb, 0x15, 0xb4, 0x64, 0x9d, 0x57, 0x82, 0x8c,
      0x2b, 0xad, 0xd6, 0xe6, 0xc3, 0x2b, 0xdc, 0xc0, 0x10, 0xf3, 0x75,
      0x3c, 0x61, 0x77, 0x64, 0x3e, 0xc8, 0x59, 0x59, 0xec, 0x42, 0xac]"

definition raw_key_hex :: string where
  "raw_key_hex = ''028f49cb15b4649d57828c2badd6e6c32bdcc010f3753c6177643ec85959ec42ac''"

definition upper_key_hex :: string where
  "upper_key_hex = ''028F49CB15B4649D57828C2BADD6E6C32BDCC010F3753C6177643EC85959EC42AC''"

definition raw_key_pem :: string where
  "raw_key_pem =
     ''-----BEGIN PUBLIC KEY-----'' @ [CHR 0x0A]
     @ ''Ao9JyxW0ZJ1XgowrrdbmwyvcwBDzdTxhd2Q+yFlZ7EKs'' @ [CHR 0x0A]
     @ ''-----END PUBLIC KEY-----''"

definition short_key_pem :: string where
  "short_key_pem =
     ''-----BEGIN PUBLIC KEY-----'' @ [CHR 0x0A] @ ''EjQ='' @ [CHR 0x0A]
     @ ''-----END PUBLIC KEY-----''"

definition raw_scalar :: "byte list" where
  "raw_scalar =
     [0x8f, 0x49, 0xcb, 0x15, 0xb4, 0x64, 0x9d, 0x57, 0x82, 0x8c, 0x2b,
      0xad, 0xd6, 0xe6, 0xc3, 0x2b, 0xdc, 0xc0, 0x10, 0xf3, 0x75, 0x3c,
      0x61, 0x77, 0x64, 0x3e, 0xc8, 0x59, 0x59, 0xec, 0x42, 0xac]"

definition marker_key :: "byte list" where
  "marker_key =
     [0x02, 0x03, 0x42, 0x00, 0x00, 0x00, 0x00, 0x00, 0x00, 0x00, 0x00,
      0x00, 0x00, 0x00, 0x00, 0x00, 0x00, 0x00, 0x00, 0x00, 0x00, 0x00,
      0x00, 0x00, 0x00, 0x00, 0x00, 0x00, 0x00, 0x00, 0x00, 0x00, 0x00]"

definition marker_key_pem :: string where
  "marker_key_pem =
     ''-----BEGIN PUBLIC KEY-----'' @ [CHR 0x0A]
     @ ''AgNCAAAAAAAAAAAAAAAAAAAAAAAAAAAAAAAAAAAAAAAA'' @ [CHR 0x0A]
     @ ''-----END PUBLIC KEY-----''"

definition marker_key_tail :: string where
  "marker_key_tail = ''0000000000000000000000000000000000000000000000000000000000''"

text \<open>A base64 decoder that never throws, to run the host codec.\<close>

definition decode_or_empty :: "string \<Rightarrow> byte list" where
  "decode_or_empty s = (case atob s of Inl e \<Rightarrow> [] | Inr bs \<Rightarrow> bs)"





text \<open>A document that has an own property named \<^verbatim>\<open>hasOwnProperty\<close> and no other.\<close>

definition shadowing_doc :: "Signature list option \<Rightarrow> EnactDocument" where
  "shadowing_doc ss = \<lparr>signatures = ss, properties = [(''hasOwnProperty'', JBool True)]\<rparr>"

section \<open>Properties of verification\<close>

lemma char_is_char_of: "(c = char_of n) = (take_bit 8 n = of_char c)"
  using char_of_eq_iff[of n c] by auto

lemma verify_returns: "verify L p h s = Inr (verify_try L p h s = Inr True)"
  by (auto simp: verify_def split: sum.splits)

lemma try_trusted_key_returns:
  "try_trusted_key L h sg k = Inr (verify L k h (signature sg) = Inr True)"
  by (simp add: try_trusted_key_def verify_returns)

lemma some_returns:
  "(\<And>x. x \<in> set xs \<Longrightarrow> f x = Inr (P x)) \<Longrightarrow> some f xs = Inr (\<exists>x\<in>set xs. P x)"
  by (induction xs) auto

lemma every_returns:
  "(\<And>x. x \<in> set xs \<Longrightarrow> f x = Inr (P x)) \<Longrightarrow> every f xs = Inr (\<forall>x\<in>set xs. P x)"
  by (induction xs) auto

lemma fallback_scan:
  "some (try_trusted_key L h sg) T = Inr (\<exists>pk\<in>set T. verify L pk h (signature sg) = Inr True)"
  by (rule some_returns) (simp add: try_trusted_key_returns)

lemma verify_signature_returns:
  "verify_signature L h T sg = Inr (verify_signature L h T sg = Inr True)"
  by (auto simp: verify_signature_def fallback_scan verify_returns split: option.splits json.splits)

lemma validate_loop_error:
  "validate_loop d fs = Inl e \<Longrightarrow> e = TypeError \<or> (\<exists>f\<in>set fs. e = MissingRequiredField f)"
  by (induction fs) (auto simp: hasOwnProperty_def split: if_splits sum.splits)

lemma createCanonicalObject_error:
  "createCanonicalObject cfg d opts = Inl e \<Longrightarrow> e = TypeError \<or> (\<exists>f. e = MissingRequiredField f)"
  by (auto simp: createCanonicalObject_def validateRequiredFields_def split: sum.splits
        dest: validate_loop_error)

text \<open>
  The per-signature check never throws. It passes a signature that names a trusted key
  when that key verifies it, and any other signature when some trusted key verifies it.
\<close>

lemma verify_signature_cases:
  "verify_signature L h T sg =
     Inr (if hasValidPublicKey sg \<and> includes_key T (Signature.publicKey sg)
          then (\<exists>pk. Signature.publicKey sg = Some (JStr pk)
                    \<and> verify L pk h (signature sg) = Inr True)
          else (\<exists>pk\<in>set T. verify L pk h (signature sg) = Inr True))"
  by (auto simp: verify_signature_def fallback_scan verify_returns hasValidPublicKey_def
           split: option.splits json.splits)

text \<open>
  Past the threshold check, \<^verbatim>\<open>verifyDocument\<close> checks every signature against the
  digest that \<^verbatim>\<open>createDocumentHash\<close> computes, with the trusted keys of the host.
\<close>

lemma verifyDocument_digest:
  assumes "createDocumentHash L d opts = Inr h"
    and "\<not> int (length (signatures_to_verify d s0))
           < nullish_or (minimumSignatures (effective_config H c)) 1"
  shows "verifyDocument L H d s0 opts c
           = every (verify_signature L h (getAllTrustedPublicKeys H)) (signatures_to_verify d s0)"
  using assms
  by (auto simp: verifyDocument_def verify_signatures_def createDocumentHash_def Let_def
           split: sum.splits)

lemma every_true_all:
  "every f xs = Inr True \<Longrightarrow> \<forall>x\<in>set xs. f x = Inr True"
  by (induction xs) (auto split: sum.splits if_splits)

lemmas model_defs = verifyDocument_def verify_signatures_def effective_config_def signatures_to_verify_def
  spread_def DEFAULT_SECURITY_CONFIG_def default_host_def no_options_def generic_doc_def empty_doc_def
  sig_of_def createCanonicalObject_def validateRequiredFields_def fieldsToInclude_def activeConfig_def
  fieldSelector_def selection_def GENERIC_DEFAULT_FIELDS_def hasOwnProperty_def doc_get_def
  canonical_step_def isNonEmpty_def verify_signature_def hasValidPublicKey_def includes_key_def
  try_trusted_key_def verify_def verify_try_def toy_lib_def hash_def

lemmas model_eval = model_defs strict_config_def keyless_sig_def trusting_host_def
  asciiToBase16_def bytesToHex_def byte_hex_def hex_digit_def char_of_eq_iff
  char_is_char_of valid_signatures_def createDocumentHash_def shadowing_doc_def

text \<open>
  Claim C1, as the code has it. Let \<open>T\<close> be the trusted keys of the host, \<open>m\<close> the
  minimum of the policy and \<open>h\<close> the digest of the canonical document. When the list
  of signatures is at least \<open>m\<close> long and the projection succeeds,
  \<^verbatim>\<open>verifyDocument\<close> returns whether every signature of the list counts as valid,
  where a signature whose public key is missing, not a string, empty or blank counts
  exactly when some key of \<open>T\<close> verifies it against \<open>h\<close> (as does a signature whose
  key is not in \<open>T\<close>; one whose key is in \<open>T\<close> counts when that key verifies it). So
  a true result with such a signature in the list means that some trusted key verifies it
  against the digest. When \<open>T\<close> is empty and such a signature is in the list, the call
  returns false if the projection succeeds or the list is shorter than \<open>m\<close>, and
  otherwise raises the error of the projection.
\<close>

theorem C1_fallback:
  fixes L H d s0 opts c
  defines "sigs \<equiv> signatures_to_verify d s0"
    and "T \<equiv> getAllTrustedPublicKeys H"
    and "m \<equiv> nullish_or (minimumSignatures (effective_config H c)) 1"
  shows "(\<forall>h. createDocumentHash L d opts = Inr h \<and> \<not> int (length sigs) < m \<longrightarrow>
            verifyDocument L H d s0 opts c
              = Inr (\<forall>sg\<in>set sigs.
                       if hasValidPublicKey sg \<and> includes_key T (Signature.publicKey sg)
                       then (\<exists>pk. Signature.publicKey sg = Some (JStr pk)
                                 \<and> verify L pk h (signature sg) = Inr True)
                       else (\<exists>pk\<in>set T. verify L pk h (signature sg) = Inr True)))
         \<and> (\<forall>sg\<in>set sigs.
              \<not> hasValidPublicKey sg \<and> verifyDocument L H d s0 opts c = Inr True \<longrightarrow>
              (\<exists>h. createDocumentHash L d opts = Inr h
                  \<and> (\<exists>pk\<in>set T. verify L pk h (signature sg) = Inr True)))
         \<and> ((\<exists>sg\<in>set sigs. \<not> hasValidPublicKey sg) \<and> T = [] \<longrightarrow>
              verifyDocument L H d s0 opts c
                = (case createDocumentHash L d opts of
                     Inr h \<Rightarrow> Inr False
                   | Inl e \<Rightarrow> if int (length sigs) < m then Inr False else Inl e))"
proof -
  have main: "verifyDocument L H d s0 opts c
              = Inr (\<forall>sg\<in>set sigs.
                       if hasValidPublicKey sg \<and> includes_key T (Signature.publicKey sg)
                       then (\<exists>pk. Signature.publicKey sg = Some (JStr pk)
                                 \<and> verify L pk h (signature sg) = Inr True)
                       else (\<exists>pk\<in>set T. verify L pk h (signature sg) = Inr True))"
    if "createDocumentHash L d opts = Inr h" "\<not> int (length sigs) < m" for h
    unfolding verifyDocument_digest[OF that(1) that(2)[unfolded sigs_def m_def]] sigs_def T_def
    by (rule every_returns) (rule verify_signature_cases)
  have short: "verifyDocument L H d s0 opts c
                 = Inr (truthy (allowLocalUnsigned (effective_config H c)) \<and> sigs = [])"
    if "int (length sigs) < m"
    using that by (simp add: verifyDocument_def verify_signatures_def sigs_def m_def)
  have raise: "verifyDocument L H d s0 opts c = Inl e"
    if "createDocumentHash L d opts = Inl e" "\<not> int (length sigs) < m" for e
    using that
    by (auto simp: verifyDocument_def verify_signatures_def createDocumentHash_def sigs_def m_def
          Let_def split: sum.splits)
  have second: "\<exists>h. createDocumentHash L d opts = Inr h
                  \<and> (\<exists>pk\<in>set T. verify L pk h (signature sg) = Inr True)"
    if sg: "sg \<in> set sigs" and k: "\<not> hasValidPublicKey sg"
      and t: "verifyDocument L H d s0 opts c = Inr True" for sg
  proof -
    from sg have ne: "sigs \<noteq> []" by auto
    have ge: "\<not> int (length sigs) < m" using short t ne by auto
    obtain h where h: "createDocumentHash L d opts = Inr h"
      using raise[OF _ ge] t by (cases "createDocumentHash L d opts") auto
    from main[OF h ge] t sg k have "\<exists>pk\<in>set T. verify L pk h (signature sg) = Inr True"
      by auto
    with h show ?thesis by blast
  qed
  have third: "verifyDocument L H d s0 opts c
                = (case createDocumentHash L d opts of
                     Inr h \<Rightarrow> Inr False
                   | Inl e \<Rightarrow> if int (length sigs) < m then Inr False else Inl e)"
    if sg: "\<exists>sg\<in>set sigs. \<not> hasValidPublicKey sg" and e: "T = []"
  proof -
    from sg have ne: "sigs \<noteq> []" by auto
    show ?thesis
    proof (cases "int (length sigs) < m")
      case True
      with short ne show ?thesis by (simp split: sum.splits)
    next
      case False
      show ?thesis
      proof (cases "createDocumentHash L d opts")
        case (Inl x)
        with raise False show ?thesis by simp
      next
        case (Inr h)
        with main[OF Inr False] sg e show ?thesis by auto
      qed
    qed
  qed
  show ?thesis using main second third by blast
qed

theorem C1_witness:
  "createDocumentHash toy_lib (generic_doc (Some [keyless_sig])) no_options = Inr []
   \<and> \<not> hasValidPublicKey keyless_sig
   \<and> verify toy_lib ''cd'' [] (signature keyless_sig) = Inr True
   \<and> verifyDocument toy_lib trusting_host (generic_doc (Some [keyless_sig])) (sig_of [] None)
        no_options None = Inr True
   \<and> verify toy_lib ''ab'' [] (signature keyless_sig) = Inr False
   \<and> verifyDocument toy_lib (trusting_host\<lparr>getAllTrustedPublicKeys := [''ab'']\<rparr>)
        (generic_doc (Some [keyless_sig])) (sig_of [] None) no_options None = Inr False
   \<and> verifyDocument toy_lib default_host (generic_doc (Some [keyless_sig])) (sig_of [] None)
        no_options None = Inr False"
proof -
  let ?d = "generic_doc (Some [keyless_sig])"
  have h: "createDocumentHash toy_lib ?d no_options = Inr []"
    by (simp add: model_eval)
  have k: "\<not> hasValidPublicKey keyless_sig"
    by (simp add: hasValidPublicKey_def keyless_sig_def sig_of_def)
  have a: "verify toy_lib ''cd'' [] (signature keyless_sig) = Inr True"
    "verify toy_lib ''ab'' [] (signature keyless_sig) = Inr False"
    by (simp_all add: model_eval)
  have s: "signatures_to_verify ?d (sig_of [] None) = [keyless_sig]"
    by (simp add: signatures_to_verify_def generic_doc_def)
  have c: "nullish_or (minimumSignatures (effective_config trusting_host None)) 1 = 1"
    "nullish_or (minimumSignatures
       (effective_config (trusting_host\<lparr>getAllTrustedPublicKeys := [''ab'']\<rparr>) None)) 1 = 1"
    "nullish_or (minimumSignatures (effective_config default_host None)) 1 = 1"
    "getAllTrustedPublicKeys trusting_host = [''ab'', ''cd'']"
    "getAllTrustedPublicKeys default_host = []"
    by (simp_all add: model_eval)
  show ?thesis
    using h k a s c
      C1_fallback[of toy_lib ?d no_options "sig_of [] None" trusting_host None]
      C1_fallback[of toy_lib ?d no_options "sig_of [] None"
         "trusting_host\<lparr>getAllTrustedPublicKeys := [''ab'']\<rparr>" None]
      C1_fallback[of toy_lib ?d no_options "sig_of [] None" default_host None]
    by simp
qed

text \<open>
  The claim as stated says that the call returns false. With a document that lacks a
  required field and a list as long as the threshold, the call raises instead.
\<close>

theorem C1_counterexample:
  "\<not> hasValidPublicKey keyless_sig
   \<and> getAllTrustedPublicKeys default_host = []
   \<and> keyless_sig \<in> set (signatures_to_verify (empty_doc (Some [keyless_sig])) (sig_of [] None))
   \<and> verifyDocument toy_lib default_host (empty_doc (Some [keyless_sig])) (sig_of [] None)
        no_options None = Inl (MissingRequiredField ''id'')"
  by (simp add: model_eval)

text \<open>
  Claim C2, as the code has it. Verification returns true only if the number of valid
  signatures is at least the minimum \<open>m\<close>, or unsigned documents are allowed and the
  list is empty; and when the list is shorter than \<open>m\<close> it returns true exactly when
  unsigned documents are allowed and the list is empty, false otherwise.
\<close>

theorem C2_threshold:
  fixes L H d sg opts c
  defines "sigs \<equiv> signatures_to_verify d sg"
    and "m \<equiv> nullish_or (minimumSignatures (effective_config H c)) 1"
    and "allow \<equiv> truthy (allowLocalUnsigned (effective_config H c))"
  shows "(verifyDocument L H d sg opts c = Inr True
            \<longrightarrow> m \<le> int (length (valid_signatures L H d opts sigs)) \<or> (allow \<and> sigs = []))
         \<and> (int (length sigs) < m
            \<longrightarrow> verifyDocument L H d sg opts c = Inr (allow \<and> sigs = []))"
proof (intro conjI impI)
  assume lt: "int (length sigs) < m"
  then show "verifyDocument L H d sg opts c = Inr (allow \<and> sigs = [])"
    by (simp add: verifyDocument_def verify_signatures_def sigs_def m_def allow_def)
next
  assume t: "verifyDocument L H d sg opts c = Inr True"
  show "m \<le> int (length (valid_signatures L H d opts sigs)) \<or> (allow \<and> sigs = [])"
  proof (cases "int (length sigs) < m")
    case True
    with t show ?thesis
      by (simp add: verifyDocument_def verify_signatures_def sigs_def m_def allow_def
            split: if_splits)
  next
    case False
    with t obtain canon where
      canon: "createCanonicalObject (fieldSelector (useEnactDefaults opts)) d (selection opts)
                = Inr canon"
      and ev: "every (verify_signature L (hash L (JSON_stringify L (JObj canon) None))
                        (getAllTrustedPublicKeys H)) sigs = Inr True"
      by (auto simp: verifyDocument_def verify_signatures_def sigs_def m_def Let_def
            split: sum.splits)
    from every_true_all[OF ev]
    have "valid_signatures L H d opts sigs = sigs"
      by (simp add: valid_signatures_def canon)
    with False show ?thesis by simp
  qed
qed

theorem C2_witness:
  "verifyDocument toy_lib trusting_host (generic_doc (Some [keyless_sig])) keyless_sig
      no_options None = Inr True
   \<and> 1 \<le> int (length (valid_signatures toy_lib trusting_host (generic_doc (Some [keyless_sig]))
                no_options [keyless_sig]))
   \<and> int (length (signatures_to_verify (generic_doc None) keyless_sig)) < 2
   \<and> verifyDocument toy_lib trusting_host (generic_doc None) keyless_sig
        no_options (Some strict_config) = Inr False"
proof -
  have t: "verifyDocument toy_lib trusting_host (generic_doc (Some [keyless_sig])) keyless_sig
             no_options None = Inr True"
    by (simp add: model_eval)
  have c: "nullish_or (minimumSignatures (effective_config trusting_host None)) 1 = 1"
      "nullish_or (minimumSignatures (effective_config trusting_host (Some strict_config))) 1 = 2"
      "truthy (allowLocalUnsigned (effective_config trusting_host (Some strict_config))) = False"
      "signatures_to_verify (generic_doc (Some [keyless_sig])) keyless_sig = [keyless_sig]"
      "signatures_to_verify (generic_doc None) keyless_sig = [keyless_sig]"
    by (simp_all add: model_eval)
  show ?thesis
    using t c
      C2_threshold[of toy_lib trusting_host "generic_doc (Some [keyless_sig])" keyless_sig
         no_options None]
      C2_threshold[of toy_lib trusting_host "generic_doc None" keyless_sig
         no_options "Some strict_config"]
    by simp
qed

text \<open>
  The claim as stated allows the unsigned case only for \<open>m = 0\<close>. With the default
  policy (\<open>m = 1\<close>, unsigned allowed) a document with an empty list verifies although
  it has no valid signature.
\<close>

theorem C2_counterexample:
  "verifyDocument toy_lib default_host (generic_doc (Some [])) keyless_sig no_options None = Inr True
   \<and> nullish_or (minimumSignatures (effective_config default_host None)) 1 = 1
   \<and> length (valid_signatures toy_lib default_host (generic_doc (Some [])) no_options
               (signatures_to_verify (generic_doc (Some [])) keyless_sig)) = 0"
  by (simp add: model_eval)

text \<open>
  Claim C3, as the code has it. The list that is verified is \<^verbatim>\<open>document.signatures\<close>
  whenever that property is present, the empty array too, and the one-element list of the
  provided signature when it is absent.
\<close>

theorem C3_list:
  "(\<forall>ss. signatures d = Some ss
         \<longrightarrow> verifyDocument L H d sg opts c
             = verify_signatures L H d opts (effective_config H c) ss)
   \<and> (signatures d = None
         \<longrightarrow> verifyDocument L H d sg opts c
             = verify_signatures L H d opts (effective_config H c) [sg])"
  by (simp add: verifyDocument_def signatures_to_verify_def)

theorem C3_witness:
  "verifyDocument toy_lib trusting_host (generic_doc (Some [keyless_sig])) (sig_of ''ef'' None)
       no_options None
     = verify_signatures toy_lib trusting_host (generic_doc (Some [keyless_sig])) no_options
         (effective_config trusting_host None) [keyless_sig]
   \<and> verifyDocument toy_lib trusting_host (generic_doc None) (sig_of ''ef'' None) no_options None
     = verify_signatures toy_lib trusting_host (generic_doc None) no_options
         (effective_config trusting_host None) [sig_of ''ef'' None]"
proof -
  have a: "signatures (generic_doc (Some [keyless_sig])) = Some [keyless_sig]"
      "signatures (generic_doc None) = None"
    by (simp_all add: generic_doc_def)
  show ?thesis
    using a
      C3_list[of "generic_doc (Some [keyless_sig])" toy_lib trusting_host "sig_of ''ef'' None"
         no_options None]
      C3_list[of "generic_doc None" toy_lib trusting_host "sig_of ''ef'' None" no_options None]
    by simp
qed

text \<open>
  The claim as stated falls back to the provided signature for an empty array. The code
  verifies the empty list: the call returns what verifying \<open>[]\<close> returns, not what
  verifying a provided signature returns.
\<close>

theorem C3_counterexample:
  "signatures (generic_doc (Some [])) = Some []
   \<and> verifyDocument toy_lib trusting_host (generic_doc (Some [])) keyless_sig no_options None
       = Inr True
   \<and> verify_signatures toy_lib trusting_host (generic_doc (Some [])) no_options
        (effective_config trusting_host None) [] = Inr True
   \<and> verify_signatures toy_lib trusting_host (generic_doc (Some [])) no_options
        (effective_config trusting_host None) [sig_of ''ef'' None] = Inr False"
  by (simp add: model_eval)

text \<open>
  Claim C10. When the document has a \<^verbatim>\<open>signatures\<close> property, the result (a
  boolean or the error raised) is the same for any two provided signatures.
\<close>

theorem C10_noninterference:
  "signatures d = Some ss \<Longrightarrow>
     verifyDocument L H d s1 opts c = verifyDocument L H d s2 opts c"
  by (simp add: verifyDocument_def signatures_to_verify_def)

theorem C10_witness:
  "signatures (generic_doc (Some [keyless_sig])) = Some [keyless_sig]
   \<and> verifyDocument toy_lib trusting_host (generic_doc (Some [keyless_sig])) (sig_of ''ef'' None)
       no_options None
     = verifyDocument toy_lib trusting_host (generic_doc (Some [keyless_sig])) keyless_sig
       no_options None"
proof -
  have a: "signatures (generic_doc (Some [keyless_sig])) = Some [keyless_sig]"
    by (simp add: generic_doc_def)
  show ?thesis
    using a C10_noninterference[OF a, of toy_lib trusting_host "sig_of ''ef'' None" no_options None
                keyless_sig]
    by simp
qed

text \<open>
  Claim C5. \<^verbatim>\<open>CryptoUtils.verify\<close> returns a boolean for every three strings and
  never raises: a public key or a digest that is not hex, and any exception of the curve
  library, give false; it gives true only when both decode and the library says true.
\<close>

theorem C5_verify:
  "(\<exists>b. verify L p h s = Inr b)
   \<and> (\<forall>e. hexToBytes p = Inl e \<longrightarrow> verify L p h s = Inr False)
   \<and> (\<forall>e. hexToBytes h = Inl e \<longrightarrow> verify L p h s = Inr False)
   \<and> (\<forall>e. verify_try L p h s = Inl e \<longrightarrow> verify L p h s = Inr False)
   \<and> (verify L p h s = Inr True \<longleftrightarrow>
        (\<exists>pb hb. hexToBytes p = Inr pb \<and> hexToBytes h = Inr hb
                  \<and> secp256k1_verify L s hb pb = Inr True))"
  by (auto simp: verify_def verify_try_def split: sum.splits)

theorem C5_witness:
  "hexToBytes ''zz'' = Inl HexError
   \<and> verify toy_lib ''zz'' [] ''ab'' = Inr False
   \<and> verify toy_lib ''ab'' ''0'' ''ab'' = Inr False
   \<and> verify_try toy_lib ''ab'' [] [] = Inl CryptoError
   \<and> verify toy_lib ''ab'' [] [] = Inr False
   \<and> verify toy_lib ''ab'' [] ''ab'' = Inr True"
proof -
  have a: "hexToBytes ''zz'' = Inl HexError" "hexToBytes ''0'' = Inl HexError"
      "verify_try toy_lib ''ab'' [] [] = Inl CryptoError"
      "hexToBytes ''ab'' = Inr [171]" "hexToBytes [] = Inr []"
      "secp256k1_verify toy_lib ''ab'' [] [171] = Inr True"
    by (simp_all add: model_eval)
  show ?thesis
    using a C5_verify[of toy_lib "''zz''" "[]" "''ab''"] C5_verify[of toy_lib "''ab''" "''0''" "''ab''"]
      C5_verify[of toy_lib "''ab''" "[]" "[]"] C5_verify[of toy_lib "''ab''" "[]" "''ab''"]
    by simp
qed

lemma validate_loop_missing:
  "f \<in> set fs \<Longrightarrow> doc_get d f = None \<or> isEmpty (doc_get d f) \<Longrightarrow>
   doc_get d ''hasOwnProperty'' = None \<Longrightarrow>
     \<exists>g\<in>set fs. validate_loop d fs = Inl (MissingRequiredField g)
                \<and> (doc_get d g = None \<or> isEmpty (doc_get d g))"
  by (induction fs) (auto simp: hasOwnProperty_def)

lemma validate_loop_shadowed:
  "fs \<noteq> [] \<Longrightarrow> doc_get d ''hasOwnProperty'' \<noteq> None \<Longrightarrow> validate_loop d fs = Inl TypeError"
  by (cases fs) (auto simp: hasOwnProperty_def)

lemma createCanonicalObject_missing:
  assumes "fc \<in> set (activeConfig cfg o')" "required fc"
    and "name fc \<in> set (fieldsToInclude cfg o')"
    and "doc_get d (name fc) = None \<or> isEmpty (doc_get d (name fc))"
  shows "doc_get d ''hasOwnProperty'' = None \<Longrightarrow>
           \<exists>g. createCanonicalObject cfg d o' = Inl (MissingRequiredField g)
               \<and> (doc_get d g = None \<or> isEmpty (doc_get d g))"
    and "doc_get d ''hasOwnProperty'' \<noteq> None \<Longrightarrow>
           createCanonicalObject cfg d o' = Inl TypeError"
proof -
  let ?req = "map name (filter (\<lambda>field. required field
                 \<and> name field \<in> set (fieldsToInclude cfg o')) (activeConfig cfg o'))"
  have m: "name fc \<in> set ?req" using assms(1-3) by auto
  then have ne: "?req \<noteq> []" by (metis empty_iff list.set(1))
  show "\<exists>g. createCanonicalObject cfg d o' = Inl (MissingRequiredField g)
               \<and> (doc_get d g = None \<or> isEmpty (doc_get d g))"
    if "doc_get d ''hasOwnProperty'' = None"
    using validate_loop_missing[OF m assms(4) that]
    by (auto simp: createCanonicalObject_def validateRequiredFields_def)
  show "createCanonicalObject cfg d o' = Inl TypeError"
    if "doc_get d ''hasOwnProperty'' \<noteq> None"
    using validate_loop_shadowed[OF ne that]
    by (simp add: createCanonicalObject_def validateRequiredFields_def)
qed

lemma activeConfig_selection [simp]: "activeConfig cfg (selection opts) = cfg"
  by (simp add: activeConfig_def selection_def)

text \<open>
  Claim C9, as the code has it. For a document that lacks, or holds an empty value for,
  a field that is required in the active default set and selected: when the list of
  signatures is at least as long as the minimum, verification raises. The error is the
  missing-required-field error (for the first such field in configuration order) when the
  document has no own property named \<^verbatim>\<open>hasOwnProperty\<close>, and the
  \<^verbatim>\<open>TypeError\<close> of calling that property when it has one. When the list is shorter
  than the minimum, the threshold check has already returned a boolean.
\<close>

theorem C9_missing_required:
  assumes "fc \<in> set (fieldSelector (useEnactDefaults opts))" and "required fc"
    and "name fc \<in> set (fieldsToInclude (fieldSelector (useEnactDefaults opts)) (selection opts))"
    and "doc_get d (name fc) = None \<or> isEmpty (doc_get d (name fc))"
  shows "(\<not> int (length (signatures_to_verify d sg))
              < nullish_or (minimumSignatures (effective_config H c)) 1
            \<and> doc_get d ''hasOwnProperty'' = None
            \<longrightarrow> (\<exists>g. verifyDocument L H d sg opts c = Inl (MissingRequiredField g)
                      \<and> (doc_get d g = None \<or> isEmpty (doc_get d g))))
         \<and> (\<not> int (length (signatures_to_verify d sg))
              < nullish_or (minimumSignatures (effective_config H c)) 1
            \<and> doc_get d ''hasOwnProperty'' \<noteq> None
            \<longrightarrow> verifyDocument L H d sg opts c = Inl TypeError)
         \<and> (int (length (signatures_to_verify d sg))
              < nullish_or (minimumSignatures (effective_config H c)) 1
            \<longrightarrow> verifyDocument L H d sg opts c
                  = Inr (truthy (allowLocalUnsigned (effective_config H c))
                         \<and> signatures_to_verify d sg = []))"
proof -
  have "fc \<in> set (activeConfig (fieldSelector (useEnactDefaults opts)) (selection opts))"
    using assms(1) by simp
  note p = createCanonicalObject_missing[OF this assms(2,3,4)]
  show ?thesis
  proof (intro conjI impI)
    assume "\<not> int (length (signatures_to_verify d sg))
              < nullish_or (minimumSignatures (effective_config H c)) 1
            \<and> doc_get d ''hasOwnProperty'' = None"
    with p(1) show "\<exists>g. verifyDocument L H d sg opts c = Inl (MissingRequiredField g)
                      \<and> (doc_get d g = None \<or> isEmpty (doc_get d g))"
      by (auto simp: verifyDocument_def verify_signatures_def)
  next
    assume "\<not> int (length (signatures_to_verify d sg))
              < nullish_or (minimumSignatures (effective_config H c)) 1
            \<and> doc_get d ''hasOwnProperty'' \<noteq> None"
    with p(2) show "verifyDocument L H d sg opts c = Inl TypeError"
      by (simp add: verifyDocument_def verify_signatures_def)
  next
    assume "int (length (signatures_to_verify d sg))
              < nullish_or (minimumSignatures (effective_config H c)) 1"
    then show "verifyDocument L H d sg opts c
                  = Inr (truthy (allowLocalUnsigned (effective_config H c))
                         \<and> signatures_to_verify d sg = [])"
      by (simp add: verifyDocument_def verify_signatures_def)
  qed
qed

theorem C9_witness:
  "doc_get (empty_doc None) ''id'' = None
   \<and> verifyDocument toy_lib default_host (empty_doc None) keyless_sig no_options None
       = Inl (MissingRequiredField ''id'')
   \<and> doc_get (shadowing_doc None) ''id'' = None
   \<and> verifyDocument toy_lib default_host (shadowing_doc None) keyless_sig no_options None
       = Inl TypeError
   \<and> verifyDocument toy_lib default_host (empty_doc None) keyless_sig no_options
        (Some strict_config) = Inr False"
proof -
  let ?fc = "\<lparr>name = ''id'', required = True, securityCritical = True,
      description = Some ''Document identifier''\<rparr>"
  have a: "?fc \<in> set (fieldSelector (useEnactDefaults no_options))" "required ?fc"
    "name ?fc \<in> set (fieldsToInclude (fieldSelector (useEnactDefaults no_options)) (selection no_options))"
    by (simp_all add: model_eval)
  have m: "doc_get (empty_doc None) (name ?fc) = None
             \<or> isEmpty (doc_get (empty_doc None) (name ?fc))"
    "doc_get (shadowing_doc None) (name ?fc) = None
             \<or> isEmpty (doc_get (shadowing_doc None) (name ?fc))"
    by (simp_all add: model_eval)
  have c: "\<not> int (length (signatures_to_verify (empty_doc None) keyless_sig))
              < nullish_or (minimumSignatures (effective_config default_host None)) 1"
    "\<not> int (length (signatures_to_verify (shadowing_doc None) keyless_sig))
              < nullish_or (minimumSignatures (effective_config default_host None)) 1"
    "int (length (signatures_to_verify (empty_doc None) keyless_sig))
              < nullish_or (minimumSignatures (effective_config default_host (Some strict_config))) 1"
    "doc_get (empty_doc None) ''id'' = None"
    "doc_get (shadowing_doc None) ''id'' = None"
    "doc_get (empty_doc None) ''hasOwnProperty'' = None"
    "doc_get (shadowing_doc None) ''hasOwnProperty'' \<noteq> None"
    "truthy (allowLocalUnsigned (effective_config default_host (Some strict_config))) = False"
    by (simp_all add: model_eval)
  have e: "verifyDocument toy_lib default_host (empty_doc None) keyless_sig no_options None
       = Inl (MissingRequiredField ''id'')"
    by (simp add: model_eval)
  show ?thesis
    using c e
      C9_missing_required[OF a m(1), of keyless_sig default_host None toy_lib]
      C9_missing_required[OF a m(2), of keyless_sig default_host None toy_lib]
      C9_missing_required[OF a m(1), of keyless_sig default_host "Some strict_config" toy_lib]
    by simp
qed

text \<open>
  The claim as stated has every such call raise the missing-required-field error. With a
  minimum of two signatures and one provided, the call returns false before the projection
  runs; and for a document with an own property named \<^verbatim>\<open>hasOwnProperty\<close> the error
  raised is the \<^verbatim>\<open>TypeError\<close> of calling it.
\<close>

theorem C9_counterexample:
  "\<lparr>name = ''id'', required = True, securityCritical = True,
      description = Some ''Document identifier''\<rparr> \<in> set (fieldSelector (useEnactDefaults no_options))
   \<and> ''id'' \<in> set (fieldsToInclude (fieldSelector (useEnactDefaults no_options)) (selection no_options))
   \<and> doc_get (empty_doc None) ''id'' = None
   \<and> verifyDocument toy_lib default_host (empty_doc None) keyless_sig no_options
        (Some strict_config) = Inr False
   \<and> doc_get (shadowing_doc None) ''id'' = None
   \<and> verifyDocument toy_lib default_host (shadowing_doc None) keyless_sig no_options None
        = Inl TypeError"
  by (simp add: model_eval)

lemma signatures_not_default:
  "''signatures'' \<notin> set (map name (fieldSelector u))"
  by (simp add: fieldSelector_def ENACT_DEFAULT_CRITICAL_FIELDS_def GENERIC_DEFAULT_FIELDS_def)

lemma signatures_selected_iff:
  "''signatures'' \<in> set (fieldsToInclude (fieldSelector u) (selection opts))
     \<longleftrightarrow> names_field opts ''signatures''"
  using signatures_not_default[of u]
  by (auto simp: fieldsToInclude_def names_field_def selection_def activeConfig_def
        split: option.splits)

lemma doc_get_signatures_update:
  "k \<noteq> ''signatures'' \<Longrightarrow> doc_get (d\<lparr>signatures := x\<rparr>) k = doc_get d k"
  by (simp add: doc_get_def)

lemma validate_loop_cong:
  "(\<And>f. f \<in> set fs \<Longrightarrow> doc_get d f = doc_get d' f) \<Longrightarrow>
   doc_get d ''hasOwnProperty'' = doc_get d' ''hasOwnProperty'' \<Longrightarrow>
     validate_loop d fs = validate_loop d' fs"
  by (induction fs) (auto simp: hasOwnProperty_def)

lemma canonical_fold_cong:
  "(\<And>f. f \<in> set fs \<Longrightarrow> doc_get d f = doc_get d' f) \<Longrightarrow>
     foldl (canonical_step d) acc fs = foldl (canonical_step d') acc fs"
  by (induction fs arbitrary: acc) (auto simp: canonical_step_def)

lemma canonical_fold_keys:
  "fst ` set (foldl (canonical_step d) acc fs) \<subseteq> fst ` set acc \<union> set fs"
proof (induction fs arbitrary: acc)
  case Nil
  show ?case by simp
next
  case (Cons f fs)
  have "fst ` set (canonical_step d acc f) \<subseteq> fst ` set acc \<union> {f}"
    by (auto simp: canonical_step_def dom_update split: option.splits)
  with Cons[of "canonical_step d acc f"] show ?case by auto
qed

lemma createCanonicalObject_cong:
  assumes "\<And>f. f \<in> set (fieldsToInclude cfg o') \<Longrightarrow> doc_get d f = doc_get d' f"
    and "doc_get d ''hasOwnProperty'' = doc_get d' ''hasOwnProperty''"
  shows "createCanonicalObject cfg d o' = createCanonicalObject cfg d' o'"
proof -
  have "validateRequiredFields d (activeConfig cfg o') (fieldsToInclude cfg o')
          = validateRequiredFields d' (activeConfig cfg o') (fieldsToInclude cfg o')"
    unfolding validateRequiredFields_def Let_def
    by (rule validate_loop_cong) (auto simp: assms)
  moreover have "foldl (canonical_step d) [] (sort (fieldsToInclude cfg o'))
                   = foldl (canonical_step d') [] (sort (fieldsToInclude cfg o'))"
    by (rule canonical_fold_cong) (simp add: assms)
  ultimately show ?thesis by (simp add: createCanonicalObject_def split: sum.splits)
qed

lemma createCanonicalObject_keys:
  "createCanonicalObject cfg d o' = Inr canon \<Longrightarrow> fst ` set canon \<subseteq> set (fieldsToInclude cfg o')"
  using canonical_fold_keys[of d "[]" "sort (fieldsToInclude cfg o')"]
  by (auto simp: createCanonicalObject_def split: sum.splits)

text \<open>
  Claim C4, as the code has it. When the options do not name \<^verbatim>\<open>signatures\<close>
  (it is excluded, or it is not listed in \<^verbatim>\<open>includeFields\<close>, or without that list
  not in \<^verbatim>\<open>additionalCriticalFields\<close>), the canonical object has no such key, the
  projection is the same whatever the document's signatures are, and so is the result of
  signing.
\<close>

theorem C4_signatures_excluded:
  assumes "\<not> names_field opts ''signatures''"
  shows "(\<forall>canon. createCanonicalObject (fieldSelector (useEnactDefaults opts)) d (selection opts)
                    = Inr canon \<longrightarrow> ''signatures'' \<notin> fst ` set canon)
         \<and> createCanonicalObject (fieldSelector (useEnactDefaults opts))
              (d\<lparr>signatures := x\<rparr>) (selection opts)
             = createCanonicalObject (fieldSelector (useEnactDefaults opts)) d (selection opts)
         \<and> signDocument L now (d\<lparr>signatures := x\<rparr>) k opts = signDocument L now d k opts"
proof -
  let ?cfg = "fieldSelector (useEnactDefaults opts)"
  have ns: "''signatures'' \<notin> set (fieldsToInclude ?cfg (selection opts))"
    using assms by (simp add: signatures_selected_iff)
  have eq: "createCanonicalObject ?cfg (d\<lparr>signatures := x\<rparr>) (selection opts)
              = createCanonicalObject ?cfg d (selection opts)"
  proof (rule createCanonicalObject_cong)
    fix f
    assume "f \<in> set (fieldsToInclude ?cfg (selection opts))"
    with ns have "f \<noteq> ''signatures''" by auto
    then show "doc_get (d\<lparr>signatures := x\<rparr>) f = doc_get d f"
      by (rule doc_get_signatures_update)
  next
    show "doc_get (d\<lparr>signatures := x\<rparr>) ''hasOwnProperty'' = doc_get d ''hasOwnProperty''"
      by (rule doc_get_signatures_update) simp
  qed
  have keys: "\<forall>canon. createCanonicalObject ?cfg d (selection opts) = Inr canon
                \<longrightarrow> ''signatures'' \<notin> fst ` set canon"
    using createCanonicalObject_keys ns by blast
  show ?thesis using eq keys by (simp add: signDocument_def)
qed

theorem C4_witness:
  "\<not> names_field no_options ''signatures''
   \<and> createCanonicalObject (fieldSelector (useEnactDefaults no_options))
       (generic_doc (Some [keyless_sig])) (selection no_options)
     = Inr [(''content'', JStr ''c''), (''id'', JStr ''1''), (''timestamp'', JNum 7)]
   \<and> signDocument toy_lib 5 (generic_doc (Some [keyless_sig])) ''ab'' no_options
     = signDocument toy_lib 5 (generic_doc None) ''ab'' no_options"
proof -
  have h: "\<not> names_field no_options ''signatures''"
    by (simp add: names_field_def no_options_def)
  have u: "(generic_doc None)\<lparr>signatures := Some [keyless_sig]\<rparr> = generic_doc (Some [keyless_sig])"
    by (simp add: generic_doc_def)
  have c: "createCanonicalObject (fieldSelector (useEnactDefaults no_options))
       (generic_doc None) (selection no_options)
     = Inr [(''content'', JStr ''c''), (''id'', JStr ''1''), (''timestamp'', JNum 7)]"
    by (simp add: model_eval)
  show ?thesis
    using h c u C4_signatures_excluded[OF h, of "generic_doc None" "Some [keyless_sig]" toy_lib 5 "''ab''"]
    by simp
qed

text \<open>
  The claim as stated holds for every options value. Options that list
  \<^verbatim>\<open>signatures\<close> in \<^verbatim>\<open>includeFields\<close> put the document's signatures into the
  canonical object.
\<close>

theorem C4_counterexample:
  "createCanonicalObject (fieldSelector (useEnactDefaults signatures_option))
       (empty_doc (Some [keyless_sig])) (selection signatures_option)
     = Inr [(''signatures'', JArr [sig_json keyless_sig])]
   \<and> createCanonicalObject (fieldSelector (useEnactDefaults signatures_option))
       (empty_doc None) (selection signatures_option)
     = Inr []"
  by (simp add: model_eval signatures_option_def)

section \<open>Properties of the hex and base64 codecs\<close>

lemma unat_byte_less: "unat (b::byte) < 256"
  using unsigned_less[of b, where 'a=nat] by simp

lemma split_1024: 
  fixes n :: nat
  shows "n div 1024 * 4096 + n div 16 mod 64 * 64 + n mod 16 * 4 = 4 * n"
proof -
  define X Y Z where "X = n div 1024" and "Y = n div 16 mod 64" and "Z = n mod 16"
  have "n mod (16 * 64) = 16 * Y + Z" unfolding Y_def Z_def by (rule mod_mult2_eq)
  moreover have "n = 1024 * X + n mod 1024" unfolding X_def by simp
  ultimately have "n = 1024 * X + 16 * Y + Z" by simp
  then show ?thesis unfolding X_def[symmetric] Y_def[symmetric] Z_def[symmetric] by simp
qed

lemma split_262144:
  fixes n :: nat
  shows "n div 262144 * 262144 + n div 4096 mod 64 * 4096 + n div 64 mod 64 * 64 + n mod 64 = n"
proof -
  define W X Y Z where "W = n div 262144" and "X = n div 4096 mod 64" and "Y = n div 64 mod 64"
    and "Z = n mod 64"
  have a: "n mod (64 * 64) = 64 * Y + Z" unfolding Y_def Z_def by (rule mod_mult2_eq)
  have b: "n mod (4096 * 64) = 4096 * X + n mod 4096" unfolding X_def by (rule mod_mult2_eq)
  have c: "n = 262144 * W + n mod 262144" unfolding W_def by simp
  from a b c have "n = 262144 * W + 4096 * X + 64 * Y + Z" by simp
  then show ?thesis unfolding W_def[symmetric] X_def[symmetric] Y_def[symmetric] Z_def[symmetric] by simp
qed

lemma split_4:
  fixes n :: nat
  shows "(n div 4 * 64 + n mod 4 * 16) div 16 = n"
proof -
  define X Z where "X = n div 4" and "Z = n mod 4"
  have "n = 4 * X + Z" unfolding X_def Z_def by simp
  then have "X * 64 + Z * 16 = 16 * n" by simp
  then show ?thesis unfolding X_def[symmetric] Z_def[symmetric] by simp
qed

lemma sextets_less: "\<forall>x\<in>set (sextets bs). x < 64"
proof (induction bs rule: sextets.induct)
  case 1 show ?case by simp
next
  case (2 a)
  have "unat a div 4 < 64" using unat_byte_less[of a] by simp
  moreover have "unat a mod 4 * 16 < 64"
  proof -
    have "unat a mod 4 < 4" by simp
    then show ?thesis by linarith
  qed
  ultimately show ?case by (simp add: Let_def)
next
  case (3 a b)
  let ?n = "unat a * 256 + unat b"
  have "?n < 65536" using unat_byte_less[of a] unat_byte_less[of b] by linarith
  then have "?n div 1024 < 64" by simp
  moreover have "?n mod 16 * 4 < 64"
  proof -
    have "?n mod 16 < 16" by simp
    then show ?thesis by linarith
  qed
  ultimately show ?case by (simp add: Let_def)
next
  case (4 a b c rest)
  let ?n = "unat a * 65536 + unat b * 256 + unat c"
  have "?n < 16777216"
    using unat_byte_less[of a] unat_byte_less[of b] unat_byte_less[of c] by linarith
  then have "?n div 262144 < 64" by simp
  with 4 show ?case by (simp add: Let_def)
qed

lemma bytes3:
  fixes A B C :: nat
  assumes "B < 256" "C < 256"
  shows "(A * 65536 + B * 256 + C) div 65536 = A"
    and "(A * 65536 + B * 256 + C) div 256 mod 256 = B"
    and "(A * 65536 + B * 256 + C) mod 256 = C"
proof -
  have e: "A * 65536 + B * 256 + C = (A * 256 + B) * 256 + C" by simp
  have f: "A * 65536 + B * 256 + C = A * 65536 + (B * 256 + C)" by simp
  have lt: "B * 256 + C < 65536" using assms by linarith
  have "(A * 65536 + (B * 256 + C)) div 65536 = A + (B * 256 + C) div 65536"
    by (rule div_mult_self3) simp
  then show "(A * 65536 + B * 256 + C) div 65536 = A"
    using lt by (simp only: f div_less add_0_right)
  have "((A * 256 + B) * 256 + C) div 256 = (A * 256 + B) + C div 256"
    by (rule div_mult_self3) simp
  then have g: "(A * 65536 + B * 256 + C) div 256 = A * 256 + B"
    using assms(2) by (simp only: e div_less add_0_right)
  have "(A * 256 + B) mod 256 = B mod 256" by (rule mod_mult_self3)
  then show "(A * 65536 + B * 256 + C) div 256 mod 256 = B"
    using assms(1) by (simp only: g mod_less)
  have "((A * 256 + B) * 256 + C) mod 256 = C mod 256" by (rule mod_mult_self3)
  then show "(A * 65536 + B * 256 + C) mod 256 = C"
    using assms(2) by (simp only: e mod_less)
qed

lemma unsextets_sextets: "unsextets (sextets bs) = bs"
proof (induction bs rule: sextets.induct)
  case 1 show ?case by simp
next
  case (2 a)
  show ?case by (simp add: Let_def split_4)
next
  case (3 a b)
  let ?n = "unat a * 256 + unat b"
  have "?n div 256 = unat a" "?n mod 256 = unat b"
    using unat_byte_less[of b] by simp_all
  then show ?case by (simp add: Let_def split_1024)
next
  case (4 a b c rest)
  note d = bytes3[OF unat_byte_less[of b] unat_byte_less[of c], of "unat a"]
  show ?case using 4 d by (simp add: Let_def split_262144)
qed

lemma length_sextets:
  "length (sextets bs) = 4 * (length bs div 3) + (if length bs mod 3 = 0 then 0 else length bs mod 3 + 1)"
proof (induction bs rule: sextets.induct)
  case (4 a b c rest)
  have "(3 + length rest) div 3 = Suc (length rest div 3)" "(3 + length rest) mod 3 = length rest mod 3"
    by simp_all
  with 4 show ?case by (simp add: Let_def)
qed (simp_all add: Let_def)

lemma asciiToBase16_hex_digit: "n < 16 \<Longrightarrow> asciiToBase16 (hex_digit n) = Some n"
  by (simp add: asciiToBase16_def hex_digit_def)

lemma b64_index_char: "n < 64 \<Longrightarrow> b64_index (b64_char n) = Some n"
  by (auto simp: b64_index_def b64_char_def Let_def)

lemma b64_char_plain:
  assumes "n < 64"
  shows "\<not> js_whitespace (b64_char n)" "\<not> ascii_whitespace (b64_char n)"
    "b64_char n \<noteq> CHR ''=''" "b64_char n \<noteq> CHR ''-''"
proof -
  have r: "(of_char (b64_char n) :: nat) \<notin> {9, 10, 11, 12, 13, 32, 160, 61, 45}"
    using assms by (auto simp: b64_char_def)
  show "\<not> js_whitespace (b64_char n)" "\<not> ascii_whitespace (b64_char n)"
    using r by (simp_all add: js_whitespace_def ascii_whitespace_def)
  have "(of_char (CHR ''='') :: nat) = 61" "(of_char (CHR ''-'') :: nat) = 45" by simp_all
  with r show "b64_char n \<noteq> CHR ''=''" "b64_char n \<noteq> CHR ''-''"
    by auto
qed

lemma byte_nibbles: "of_nat (unat (b::byte) div 16 * 16 + unat b mod 16) = b"
  by simp

lemma hexToBytes_byte_hex:
  "hexToBytes (byte_hex b @ s) = (case hexToBytes s of Inl e \<Rightarrow> Inl e | Inr bs \<Rightarrow> Inr (b # bs))"
proof -
  have "unat b div 16 < 16" using unat_byte_less[of b] by simp
  moreover have "unat b mod 16 < 16" by simp
  ultimately have "asciiToBase16 (hex_digit (unat b div 16)) = Some (unat b div 16)"
    "asciiToBase16 (hex_digit (unat b mod 16)) = Some (unat b mod 16)"
    by (simp_all only: asciiToBase16_hex_digit)
  then show ?thesis
    by (simp add: byte_hex_def byte_nibbles del: of_nat_add of_nat_mult split: sum.splits)
qed

lemma hexToBytes_bytesToHex_append:
  "hexToBytes (bytesToHex a @ s) = (case hexToBytes s of Inl e \<Rightarrow> Inl e | Inr bs \<Rightarrow> Inr (a @ bs))"
  by (induction a) (auto simp: bytesToHex_def hexToBytes_byte_hex split: sum.splits)

lemma hexToBytes_bytesToHex: "hexToBytes (bytesToHex a) = Inr a"
  using hexToBytes_bytesToHex_append[of a "[]"] by simp

lemma bytesToHex_append: "bytesToHex (a @ b) = bytesToHex a @ bytesToHex b"
  by (simp add: bytesToHex_def)

lemma length_bytesToHex: "length (bytesToHex a) = 2 * length a"
  by (induction a) (simp_all add: bytesToHex_def byte_hex_def)

lemma b64_body:
  assumes "c \<in> set (map b64_char (sextets bs))"
  shows "b64_index c \<noteq> None" "\<not> js_whitespace c" "\<not> ascii_whitespace c" "c \<noteq> CHR ''=''"
    "c \<noteq> CHR ''-''"
proof -
  from assms obtain n where n: "n \<in> set (sextets bs)" and c: "c = b64_char n" by auto
  from n have "n < 64" using sextets_less by blast
  then show "b64_index c \<noteq> None" "\<not> js_whitespace c" "\<not> ascii_whitespace c" "c \<noteq> CHR ''=''"
    "c \<noteq> CHR ''-''"
    unfolding c by (simp_all add: b64_index_char b64_char_plain)
qed

lemma b64_index_body: "map (\<lambda>c. the (b64_index c)) (map b64_char (sextets bs)) = sextets bs"
proof -
  have "the (b64_index (b64_char n)) = n" if "n \<in> set (sextets bs)" for n
  proof -
    from that have "n < 64" using sextets_less by blast
    then show ?thesis by (simp add: b64_index_char)
  qed
  then show ?thesis by (simp add: map_idI)
qed

lemma mod4_two: "(4 * (q::nat) + 2) mod 4 = 2" by presburger

lemma mod4_three: "(4 * (q::nat) + 3) mod 4 = 3" by presburger

lemma no_pad_at_end:
  assumes "CHR ''='' \<notin> set body"
  shows "drop (length body - 2) body \<noteq> ''==''" "drop (length body - 1) body \<noteq> ''=''"
proof -
  have "set (drop (length body - 2) body) \<subseteq> set body" "set (drop (length body - 1) body) \<subseteq> set body"
    by (rule set_drop_subset)+
  with assms show "drop (length body - 2) body \<noteq> ''==''" "drop (length body - 1) body \<noteq> ''=''"
    by auto
qed

lemma strip_padding_0:
  "CHR ''='' \<notin> set body \<Longrightarrow> strip_padding body = body"
  using no_pad_at_end[of body] by (simp add: strip_padding_def)

lemma strip_padding_2:
  assumes "length body mod 4 = 2"
  shows "strip_padding (body @ ''=='') = body"
proof -
  have "length (body @ ''=='') mod 4 = 0" using assms by (simp add: mod_Suc)
  moreover have "drop (length (body @ ''=='') - 2) (body @ ''=='') = ''==''" by simp
  moreover have "take (length (body @ ''=='') - 2) (body @ ''=='') = body" by simp
  moreover have "2 \<le> length (body @ ''=='')" by simp
  ultimately show ?thesis unfolding strip_padding_def by (simp only: if_True simp_thms)
qed

lemma strip_padding_1:
  assumes "length body mod 4 = 3" "CHR ''='' \<notin> set body"
  shows "strip_padding (body @ ''='') = body"
proof -
  have ne: "body \<noteq> []" using assms(1) by auto
  have m: "length (body @ ''='') mod 4 = 0" using assms(1) by (simp add: mod_Suc)
  have "drop (length (butlast body)) (butlast body @ [last body, CHR ''='']) = [last body, CHR ''='']"
    by simp
  moreover have "butlast body @ [last body, CHR ''=''] = body @ ''=''" using ne by simp
  moreover have "length (butlast body) = length (body @ ''='') - 2" by simp
  ultimately have "drop (length (body @ ''='') - 2) (body @ ''='') = [last body, CHR ''='']"
    by (simp only:)
  moreover have "last body \<noteq> CHR ''=''" using assms(2) ne last_in_set by metis
  ultimately have a: "drop (length (body @ ''='') - 2) (body @ ''='') \<noteq> ''==''" by simp
  have b: "drop (length (body @ ''='') - 1) (body @ ''='') = ''=''" by simp
  have c: "take (length (body @ ''='') - 1) (body @ ''='') = body" by simp
  have d: "1 \<le> length (body @ ''='')" by simp
  show ?thesis unfolding strip_padding_def using m a b c d by (simp only: if_True if_False simp_thms)
qed

lemma strip_padding_encode:
  "strip_padding (b64encode bs) = map b64_char (sextets bs)
   \<and> length (map b64_char (sextets bs)) mod 4 \<noteq> 1"
proof -
  let ?body = "map b64_char (sextets bs)"
  define q where "q = length bs div 3"
  have np: "CHR ''='' \<notin> set ?body" using b64_body(4)[of _ bs] by blast
  have len: "length ?body = 4 * q + (if length bs mod 3 = 0 then 0 else length bs mod 3 + 1)"
    by (simp add: length_sextets q_def)
  consider "length bs mod 3 = 0" | "length bs mod 3 = 1" | "length bs mod 3 = 2" by linarith
  then show ?thesis
  proof cases
    case 1
    then have l: "length ?body = 4 * q" using len by simp
    have "b64encode bs = ?body" using 1 by (simp add: b64encode_def)
    moreover have "length ?body mod 4 \<noteq> 1" by (simp only: l) simp
    ultimately show ?thesis using strip_padding_0[OF np] by simp
  next
    case 2
    then have l: "length ?body = 4 * q + 2" using len by simp
    have e: "b64encode bs = ?body @ ''==''" using 2 by (simp add: b64encode_def)
    have m: "length ?body mod 4 = 2" by (simp only: l mod4_two)
    show ?thesis using strip_padding_2[OF m] m by (simp only: e) simp
  next
    case 3
    then have l: "length ?body = 4 * q + 3" using len by simp
    have e: "b64encode bs = ?body @ ''=''" using 3 by (simp add: b64encode_def)
    have m: "length ?body mod 4 = 3" by (simp only: l mod4_three)
    show ?thesis using strip_padding_1[OF m np] m by (simp only: e) simp
  qed
qed

lemma atob_b64encode: "atob (b64encode bs) = Inr bs"
proof -
  let ?body = "map b64_char (sextets bs)"
  have "\<forall>c\<in>set (b64encode bs). \<not> ascii_whitespace c"
    using b64_body(3)[of _ bs] by (auto simp: b64encode_def ascii_whitespace_def)
  then have f: "filter (\<lambda>c. \<not> ascii_whitespace c) (b64encode bs) = b64encode bs"
    by simp
  have ok: "\<not> (\<exists>c\<in>set ?body. b64_index c = None)" using b64_body(1)[of _ bs] by blast
  show ?thesis
    using strip_padding_encode[of bs] ok
    by (simp only: atob_def f Let_def b64_index_body unsextets_sextets if_False)
qed

section \<open>Properties of the PEM codec\<close>

lemmas hex_eval = bytesToHex_def byte_hex_def hex_digit_def char_of_eq_iff char_is_char_of

lemma publicDerPrefix_bytes: "bytesToHex [0x30, 0x56, 0x30, 0x10, 0x06, 0x07, 0x2a, 0x86, 0x48, 0xce, 0x3d, 0x02, 0x01, 0x06, 0x05, 0x2b, 0x81, 0x04, 0x00, 0x0a, 0x03, 0x42, 0x00] = publicDerPrefix"
  by (simp add: hex_eval publicDerPrefix_def)

lemma privateDerPrefix_bytes: "bytesToHex [0x30, 0x81, 0x84, 0x02, 0x01, 0x00, 0x30, 0x10, 0x06, 0x07, 0x2a, 0x86, 0x48, 0xce, 0x3d, 0x02, 0x01, 0x06, 0x05, 0x2b, 0x81, 0x04, 0x00, 0x0a, 0x04, 0x6d, 0x30, 0x6b, 0x02, 0x01, 0x01, 0x04, 0x20] = privateDerPrefix"
  by (simp add: hex_eval privateDerPrefix_def)

lemma privateDerPrefix_web_bytes: "bytesToHex [0x30, 0x81, 0x84, 0x02, 0x01, 0x00, 0x30, 0x13, 0x06, 0x07, 0x2a, 0x86, 0x48, 0xce, 0x3d, 0x02, 0x01, 0x06, 0x08, 0x2a, 0x86, 0x48, 0xce, 0x3d, 0x03, 0x01, 0x07, 0x04, 0x6d, 0x30, 0x6b, 0x02, 0x01, 0x01, 0x04, 0x20] = privateDerPrefix_web"
  by (simp add: hex_eval privateDerPrefix_web_def)

lemma suffix_bytes: "bytesToHex [0xa1, 0x44, 0x03, 0x42, 0x00] = ''a144034200''"
  by (simp add: hex_eval)

lemma index_public: "indexOf (publicDerPrefix @ x) ''034200'' = 40"
  by (simp add: indexOf_def publicDerPrefix_def)

lemma index_private: "indexOf (privateDerPrefix @ x) ''0420'' = 62"
  by (simp add: indexOf_def privateDerPrefix_def)

lemma index_private_web: "indexOf (privateDerPrefix_web @ x) ''0420'' = 68"
  by (simp add: indexOf_def privateDerPrefix_web_def)

lemma substring_mid:
  "substring (p @ h @ r) (int (length p)) (int (length p + length h)) = h"
  by (simp add: substring_def Let_def min_def max_def)

lemma concat_pemLines: "concat (pemLines s) = s"
proof (induction s rule: pemLines.induct)
  case (1 s)
  show ?case
  proof (cases "s = []")
    case True
    then show ?thesis by (subst pemLines.simps) simp
  next
    case False
    with 1 show ?thesis by (subst pemLines.simps) simp
  qed
qed

lemma set_pemLines:
  assumes "l \<in> set (pemLines s)"
  shows "set l \<subseteq> set s"
proof -
  have "set l \<subseteq> set (concat (pemLines s))" using assms by auto
  then show ?thesis by (simp only: concat_pemLines)
qed

lemma join_lines_snoc:
  "join_lines (ls @ [e]) = concat (map (\<lambda>l. l @ [CHR 0x0A]) ls) @ e"
proof (induction ls)
  case Nil
  show ?case by simp
next
  case (Cons l ls)
  then show ?case by (cases "ls @ [e]") simp_all
qed

lemma replace_first_prefix: "pat \<noteq> [] \<Longrightarrow> replace_first pat (pat @ r) = r"
  by (cases pat) simp_all

lemma replace_first_suffix:
  "p \<notin> set u \<Longrightarrow> replace_first (p # ps) (u @ p # ps) = u"
  by (induction u) simp_all

lemma filter_lines:
  "\<forall>l\<in>set ls. \<forall>c\<in>set l. \<not> js_whitespace c \<Longrightarrow>
     filter (\<lambda>c. \<not> js_whitespace c) (concat (map (\<lambda>l. l @ [CHR 0x0A]) ls)) = concat ls"
proof (induction ls)
  case Nil
  show ?case by simp
next
  case (Cons l ls)
  have nl: "js_whitespace (CHR 0x0A)" by (simp add: js_whitespace_def)
  have "filter (\<lambda>c. \<not> js_whitespace c) l = l" using Cons.prems by (simp add: filter_id_conv)
  with Cons nl show ?case by simp
qed

lemma b64encode_chars:
  assumes "c \<in> set (b64encode bs)"
  shows "\<not> js_whitespace c" "c \<noteq> CHR ''-''"
proof -
  have eq: "\<not> js_whitespace (CHR ''='')" by (simp add: js_whitespace_def)
  from assms have "c \<in> set (map b64_char (sextets bs)) \<or> c = CHR ''=''"
    by (auto simp: b64encode_def split: if_splits)
  then show "\<not> js_whitespace c" "c \<noteq> CHR ''-''"
    using b64_body(2,5)[of c bs] eq by auto
qed


lemma base64Content_pem_format: "base64Content (pem_format t der) t = b64encode der"
proof -
  let ?lines = "pemLines (b64encode der)"
  let ?M = "concat (map (\<lambda>l. l @ [CHR 0x0A]) ?lines)"
  have chars: "\<forall>l\<in>set ?lines. \<forall>c\<in>set l. \<not> js_whitespace c"
    and dash: "\<forall>l\<in>set ?lines. CHR ''-'' \<notin> set l"
    using set_pemLines[of _ "b64encode der"] b64encode_chars[of _ der] by blast+
  have pem: "pem_format t der = beginMarker t @ ([CHR 0x0A] @ ?M) @ endMarker t"
    using join_lines_snoc[of "beginMarker t # ?lines" "endMarker t"]
    by (simp add: pem_format_def)
  have b: "beginMarker t \<noteq> []" by (simp add: beginMarker_def)
  obtain ps where e: "endMarker t = CHR ''-'' # ps" by (simp add: endMarker_def)
  have "CHR ''-'' \<notin> set ?M" using dash by auto
  then have "CHR ''-'' \<notin> set ([CHR 0x0A] @ ?M)" by simp
  then have "replace_first (endMarker t) (([CHR 0x0A] @ ?M) @ endMarker t) = [CHR 0x0A] @ ?M"
    unfolding e by (rule replace_first_suffix)
  then have "replace_first (endMarker t) (replace_first (beginMarker t) (pem_format t der))
               = [CHR 0x0A] @ ?M"
    by (simp only: pem replace_first_prefix[OF b])
  moreover have "filter (\<lambda>c. \<not> js_whitespace c) ([CHR 0x0A] @ ?M) = concat ?lines"
    using filter_lines[OF chars] by (simp add: js_whitespace_def)
  ultimately show ?thesis by (simp add: base64Content_def concat_pemLines)
qed

lemma publicDerPrefix_hex: "\<exists>P. bytesToHex P = publicDerPrefix"
  using publicDerPrefix_bytes by blast

lemma privateDerPrefix_hex: "\<exists>P. bytesToHex P = privateDerPrefix"
  using privateDerPrefix_bytes by blast

lemma privateDerPrefix_web_hex: "\<exists>P. bytesToHex P = privateDerPrefix_web"
  using privateDerPrefix_web_bytes by blast

lemma suffix_hex: "\<exists>P. bytesToHex P = ''a144034200''"
  using suffix_bytes by blast

lemma getPublicKeyFromPrivate_hex:
  "getPublicKeyFromPrivate L (bytesToHex kb)
     = (case secp256k1_getPublicKey L kb of Inl e \<Rightarrow> Inl e | Inr pb \<Rightarrow> Inr (bytesToHex pb))"
  by (simp add: getPublicKeyFromPrivate_def hexToBytes_bytesToHex)

lemma hexToPem_public:
  "\<exists>P. bytesToHex P = publicDerPrefix
       \<and> hexToPem_with pp L (bytesToHex b) PUBLIC = Inr (pem_format PUBLIC (P @ b))"
proof -
  obtain P where P: "bytesToHex P = publicDerPrefix" using publicDerPrefix_hex by blast
  have "hexToBytes (publicDerPrefix @ bytesToHex b) = Inr (P @ b)"
    using hexToBytes_bytesToHex[of "P @ b"] by (simp only: P[symmetric] bytesToHex_append)
  then have "hexToPem_with pp L (bytesToHex b) PUBLIC = Inr (pem_format PUBLIC (P @ b))"
    by (simp add: hexToPem_with_def hexToBytes_bytesToHex)
  with P show ?thesis by blast
qed

lemma hexToPem_private:
  assumes "secp256k1_getPublicKey L kb = Inr pb" and "bytesToHex PP = pp"
  shows "\<exists>S. bytesToHex S = ''a144034200''
           \<and> hexToPem_with pp L (bytesToHex kb) PRIVATE
               = Inr (pem_format PRIVATE (PP @ kb @ S @ pb))"
proof -
  obtain S where S: "bytesToHex S = ''a144034200''" using suffix_hex by blast
  have "hexToBytes (pp @ bytesToHex kb @ ''a144034200'' @ bytesToHex pb) = Inr (PP @ kb @ S @ pb)"
    using hexToBytes_bytesToHex[of "PP @ kb @ S @ pb"]
    by (simp only: assms(2)[symmetric] S[symmetric] bytesToHex_append)
  then have "hexToPem_with pp L (bytesToHex kb) PRIVATE
               = Inr (pem_format PRIVATE (PP @ kb @ S @ pb))"
    by (simp add: hexToPem_with_def hexToBytes_bytesToHex getPublicKeyFromPrivate_hex assms(1))
  with S show ?thesis by blast
qed

lemma public_extract:
  assumes "bytesToHex P = publicDerPrefix" "length b = 33"
  shows "indexOf (bytesToHex (P @ b)) ''034200'' = 40"
    and "substring (bytesToHex (P @ b)) 46 112 = bytesToHex b"
proof -
  have h: "bytesToHex (P @ b) = publicDerPrefix @ bytesToHex b @ []"
    by (simp add: bytesToHex_append assms(1))
  show "indexOf (bytesToHex (P @ b)) ''034200'' = 40"
    by (simp only: h index_public)
  have "length publicDerPrefix = 46" by (simp add: publicDerPrefix_def)
  moreover have "length (bytesToHex b) = 66" by (simp add: length_bytesToHex assms(2))
  ultimately show "substring (bytesToHex (P @ b)) 46 112 = bytesToHex b"
    using substring_mid[of publicDerPrefix "bytesToHex b" "[]"] by (simp only: h) simp
qed

lemma private_extract:
  assumes "bytesToHex PP = privateDerPrefix" "length kb = 32"
  shows "indexOf (bytesToHex (PP @ kb @ r)) ''0420'' = 62"
    and "substring (bytesToHex (PP @ kb @ r)) 66 130 = bytesToHex kb"
proof -
  have h: "bytesToHex (PP @ kb @ r) = privateDerPrefix @ bytesToHex kb @ bytesToHex r"
    by (simp add: bytesToHex_append assms(1))
  show "indexOf (bytesToHex (PP @ kb @ r)) ''0420'' = 62"
    by (simp only: h index_private)
  have "length privateDerPrefix = 66" by (simp add: privateDerPrefix_def)
  moreover have "length (bytesToHex kb) = 64" by (simp add: length_bytesToHex assms(2))
  ultimately show "substring (bytesToHex (PP @ kb @ r)) 66 130 = bytesToHex kb"
    using substring_mid[of privateDerPrefix "bytesToHex kb" "bytesToHex r"] by (simp only: h) simp
qed

lemma private_extract_web:
  assumes "bytesToHex PP = privateDerPrefix_web" "length kb = 32"
  shows "indexOf (bytesToHex (PP @ kb @ r)) ''0420'' = 68"
    and "substring (bytesToHex (PP @ kb @ r)) 72 136 = bytesToHex kb"
proof -
  have h: "bytesToHex (PP @ kb @ r) = privateDerPrefix_web @ bytesToHex kb @ bytesToHex r"
    by (simp add: bytesToHex_append assms(1))
  show "indexOf (bytesToHex (PP @ kb @ r)) ''0420'' = 68"
    by (simp only: h index_private_web)
  have "length privateDerPrefix_web = 72" by (simp add: privateDerPrefix_web_def)
  moreover have "length (bytesToHex kb) = 64" by (simp add: length_bytesToHex assms(2))
  ultimately show "substring (bytesToHex (PP @ kb @ r)) 72 136 = bytesToHex kb"
    using substring_mid[of privateDerPrefix_web "bytesToHex kb" "bytesToHex r"]
    by (simp only: h) simp
qed

lemma marker_key_content: "base64Content marker_key_pem PUBLIC = ''AgNCAAAAAAAAAAAAAAAAAAAAAAAAAAAAAAAAAAAAAAAA''"
  by (simp add: base64Content_def marker_key_pem_def beginMarker_def endMarker_def keyType_def
        js_whitespace_def)

lemma marker_key_atob: "atob ''AgNCAAAAAAAAAAAAAAAAAAAAAAAAAAAAAAAAAAAAAAAA'' = Inr marker_key"
  by (simp add: atob_def strip_padding_def ascii_whitespace_def b64_index_def Let_def marker_key_def)

lemma marker_key_hex: "bytesToHex marker_key = ''02034200'' @ marker_key_tail"
  by (simp add: marker_key_def marker_key_tail_def hex_eval)

lemmas pem_eval = base64Content_def beginMarker_def endMarker_def keyType_def js_whitespace_def
  atob_def strip_padding_def ascii_whitespace_def b64_index_def Let_def

lemma raw_key_atob: "atob (base64Content raw_key_pem PUBLIC) = Inr raw_key"
  by (simp add: pem_eval raw_key_pem_def raw_key_def)

lemma raw_key_bytesToHex: "bytesToHex raw_key = raw_key_hex"
  by (simp add: raw_key_def raw_key_hex_def hex_eval)

lemma raw_key_no_marker: "indexOf raw_key_hex ''034200'' = - 1"
  by (simp add: indexOf_def raw_key_hex_def)

lemma short_key_atob: "atob (base64Content short_key_pem PUBLIC) = Inr [0x12, 0x34]"
  by (simp add: pem_eval short_key_pem_def)

lemma decode_or_empty_b64encode: "\<forall>bs. decode_or_empty (b64encode bs) = bs"
  by (simp add: decode_or_empty_def atob_b64encode)

lemma upper_key_bytes: "hexToBytes upper_key_hex = Inr raw_key"
  by (simp add: upper_key_hex_def raw_key_def asciiToBase16_def)

lemma hexToPem_public_any:
  assumes "hexToBytes h = Inr b"
  shows "\<exists>P. bytesToHex P = publicDerPrefix
           \<and> hexToPem_with pp L h PUBLIC = Inr (pem_format PUBLIC (P @ b))"
proof -
  obtain P where P: "bytesToHex P = publicDerPrefix" using publicDerPrefix_hex by blast
  have "hexToBytes (publicDerPrefix @ h) = Inr (P @ b)"
    using hexToBytes_bytesToHex_append[of P h] assms by (simp add: P)
  then have "hexToPem_with pp L h PUBLIC = Inr (pem_format PUBLIC (P @ b))"
    by (simp add: hexToPem_with_def assms)
  with P show ?thesis by blast
qed

text \<open>
  Claim C7, as the code has it. For every 33-byte public key in the lower-case hex form
  that \<^verbatim>\<open>bytesToHex\<close> writes, and for every 32-byte private scalar in that form
  whose public key the curve library derives, \<^verbatim>\<open>pemToHex(hexToPem(h, T), T)\<close>
  returns \<open>h\<close>, in the host codec (whose base64 decoder inverts the encoder) and in the
  browser codec.
\<close>

theorem C7_roundtrip:
  assumes "length b = 33"
    and "length kb = 32" and "secp256k1_getPublicKey L kb = Inr pb"
    and "\<forall>bs. Buffer_from_base64 (b64encode bs) = bs"
  shows "pem_roundtrip Buffer_from_base64 L (bytesToHex b) PUBLIC = Inr (bytesToHex b)
       \<and> pem_roundtrip Buffer_from_base64 L (bytesToHex kb) PRIVATE = Inr (bytesToHex kb)
       \<and> pem_roundtrip_web L (bytesToHex b) PUBLIC = Inr (bytesToHex b)
       \<and> pem_roundtrip_web L (bytesToHex kb) PRIVATE = Inr (bytesToHex kb)"
proof (intro conjI)
  obtain P where P: "bytesToHex P = publicDerPrefix"
    and pub: "\<And>pp. hexToPem_with pp L (bytesToHex b) PUBLIC = Inr (pem_format PUBLIC (P @ b))"
    using hexToPem_public[of _ L b] publicDerPrefix_bytes
    by (metis hexToBytes_bytesToHex sum.inject(2))
  note px = public_extract[OF P assms(1)]
  show "pem_roundtrip Buffer_from_base64 L (bytesToHex b) PUBLIC = Inr (bytesToHex b)"
    using px assms(4)
    by (simp add: pem_roundtrip_def hexToPem_def pub pemToHex_def base64Content_pem_format)
  show "pem_roundtrip_web L (bytesToHex b) PUBLIC = Inr (bytesToHex b)"
    using px
    by (simp add: pem_roundtrip_web_def hexToPem_web_def pub pemToHex_web_def
          base64Content_pem_format atob_b64encode)
  obtain PP where PP: "bytesToHex PP = privateDerPrefix" using privateDerPrefix_hex by blast
  obtain S where "hexToPem_with privateDerPrefix L (bytesToHex kb) PRIVATE
               = Inr (pem_format PRIVATE (PP @ kb @ S @ pb))"
    using hexToPem_private[OF assms(3) PP] by blast
  moreover note private_extract[OF PP assms(2), of "S @ pb"]
  ultimately show "pem_roundtrip Buffer_from_base64 L (bytesToHex kb) PRIVATE
                     = Inr (bytesToHex kb)"
    using assms(4)
    by (simp add: pem_roundtrip_def hexToPem_def pemToHex_def base64Content_pem_format)
  obtain PW where PW: "bytesToHex PW = privateDerPrefix_web"
    using privateDerPrefix_web_hex by blast
  obtain S' where "hexToPem_with privateDerPrefix_web L (bytesToHex kb) PRIVATE
               = Inr (pem_format PRIVATE (PW @ kb @ S' @ pb))"
    using hexToPem_private[OF assms(3) PW] by blast
  moreover note private_extract_web[OF PW assms(2), of "S' @ pb"]
  moreover have "length (bytesToHex kb) = 64" by (simp add: length_bytesToHex assms(2))
  ultimately show "pem_roundtrip_web L (bytesToHex kb) PRIVATE = Inr (bytesToHex kb)"
    by (simp add: pem_roundtrip_web_def hexToPem_web_def pemToHex_web_def
          base64Content_pem_format atob_b64encode)
qed

theorem C7_witness:
  "pem_roundtrip decode_or_empty toy_lib (bytesToHex raw_key) PUBLIC = Inr (bytesToHex raw_key)
   \<and> pem_roundtrip decode_or_empty toy_lib (bytesToHex raw_scalar) PRIVATE
       = Inr (bytesToHex raw_scalar)
   \<and> pem_roundtrip_web toy_lib (bytesToHex raw_key) PUBLIC = Inr (bytesToHex raw_key)
   \<and> pem_roundtrip_web toy_lib (bytesToHex raw_scalar) PRIVATE = Inr (bytesToHex raw_scalar)"
proof -
  have a: "length raw_key = 33" by (simp add: raw_key_def)
  have b: "length raw_scalar = 32" by (simp add: raw_scalar_def)
  have c: "secp256k1_getPublicKey toy_lib raw_scalar = Inr raw_scalar"
    by (simp add: toy_lib_def raw_scalar_def)
  show ?thesis
    by (rule C7_roundtrip[OF a b c decode_or_empty_b64encode])
qed

text \<open>
  The claim as stated covers every hex form of a key. \<^verbatim>\<open>hexToBytes\<close> accepts
  upper-case digits and \<^verbatim>\<open>bytesToHex\<close> writes lower-case ones, so a key written with
  upper-case digits comes back in lower case, which is a different string.
\<close>

theorem C7_counterexample:
  "hexToBytes upper_key_hex = Inr raw_key \<and> length raw_key = 33
   \<and> pem_roundtrip_web toy_lib upper_key_hex PUBLIC = Inr raw_key_hex
   \<and> pem_roundtrip decode_or_empty toy_lib upper_key_hex PUBLIC = Inr raw_key_hex
   \<and> upper_key_hex \<noteq> raw_key_hex"
proof -
  obtain P where P: "bytesToHex P = publicDerPrefix"
    and pem: "\<And>pp. hexToPem_with pp toy_lib upper_key_hex PUBLIC
                = Inr (pem_format PUBLIC (P @ raw_key))"
    using hexToPem_public_any[OF upper_key_bytes] publicDerPrefix_bytes
    by (metis hexToBytes_bytesToHex sum.inject(2))
  have l: "length raw_key = 33" by (simp add: raw_key_def)
  note px = public_extract[OF P l]
  have w: "pem_roundtrip_web toy_lib upper_key_hex PUBLIC = Inr raw_key_hex"
    using px
    by (simp add: pem_roundtrip_web_def hexToPem_web_def pem pemToHex_web_def
          base64Content_pem_format atob_b64encode raw_key_bytesToHex)
  have h: "pem_roundtrip decode_or_empty toy_lib upper_key_hex PUBLIC = Inr raw_key_hex"
    using px decode_or_empty_b64encode
    by (simp add: pem_roundtrip_def hexToPem_def pem pemToHex_def
          base64Content_pem_format raw_key_bytesToHex)
  have "upper_key_hex \<noteq> raw_key_hex"
    by (simp add: upper_key_hex_def raw_key_hex_def)
  then show ?thesis using upper_key_bytes l w h by blast
qed

lemma hexToBytes_append:
  "hexToBytes a = Inr x \<Longrightarrow>
     hexToBytes (a @ s) = (case hexToBytes s of Inl e \<Rightarrow> Inl e | Inr bs \<Rightarrow> Inr (x @ bs))"
  by (induction a arbitrary: x rule: hexToBytes.induct)
     (auto split: sum.splits option.splits)

lemma hexToPem_private_any:
  assumes "hexToBytes h = Inr kb" and "secp256k1_getPublicKey L kb = Inr pb"
    and "bytesToHex PP = pp"
  shows "\<exists>S. bytesToHex S = ''a144034200''
           \<and> hexToPem_with pp L h PRIVATE = Inr (pem_format PRIVATE (PP @ kb @ S @ pb))"
proof -
  obtain S where S: "bytesToHex S = ''a144034200''" using suffix_hex by blast
  have "hexToBytes (''a144034200'' @ bytesToHex pb) = Inr (S @ pb)"
    using hexToBytes_bytesToHex[of "S @ pb"] by (simp only: S[symmetric] bytesToHex_append)
  then have "hexToBytes (h @ ''a144034200'' @ bytesToHex pb) = Inr (kb @ S @ pb)"
    using hexToBytes_append[OF assms(1), of "''a144034200'' @ bytesToHex pb"] by simp
  then have "hexToBytes (pp @ h @ ''a144034200'' @ bytesToHex pb) = Inr (PP @ kb @ S @ pb)"
    using hexToBytes_bytesToHex_append[of PP "h @ ''a144034200'' @ bytesToHex pb"]
    by (simp add: assms(3))
  then have "hexToPem_with pp L h PRIVATE = Inr (pem_format PRIVATE (PP @ kb @ S @ pb))"
    by (simp add: hexToPem_with_def getPublicKeyFromPrivate_def assms(1,2))
  with S show ?thesis by blast
qed

text \<open>
  The round trip of any hex form of a key, upper-case digits included: the result is the
  lower-case form of the key's bytes.
\<close>

lemma pem_roundtrip_any_case:
  assumes "hexToBytes h = Inr b" and "length b = 33"
    and "hexToBytes k = Inr kb" and "length kb = 32"
    and "secp256k1_getPublicKey L kb = Inr pb"
    and "\<forall>bs. Buffer_from_base64 (b64encode bs) = bs"
  shows "pem_roundtrip Buffer_from_base64 L h PUBLIC = Inr (bytesToHex b)"
    and "pem_roundtrip Buffer_from_base64 L k PRIVATE = Inr (bytesToHex kb)"
    and "pem_roundtrip_web L h PUBLIC = Inr (bytesToHex b)"
    and "pem_roundtrip_web L k PRIVATE = Inr (bytesToHex kb)"
proof -
  obtain P where P: "bytesToHex P = publicDerPrefix"
    and pub: "\<And>pp. hexToPem_with pp L h PUBLIC = Inr (pem_format PUBLIC (P @ b))"
    using hexToPem_public_any[OF assms(1)] publicDerPrefix_bytes
    by (metis hexToBytes_bytesToHex sum.inject(2))
  note px = public_extract[OF P assms(2)]
  show "pem_roundtrip Buffer_from_base64 L h PUBLIC = Inr (bytesToHex b)"
    using px assms(6)
    by (simp add: pem_roundtrip_def hexToPem_def pub pemToHex_def base64Content_pem_format)
  show "pem_roundtrip_web L h PUBLIC = Inr (bytesToHex b)"
    using px
    by (simp add: pem_roundtrip_web_def hexToPem_web_def pub pemToHex_web_def
          base64Content_pem_format atob_b64encode)
  obtain PP where PP: "bytesToHex PP = privateDerPrefix" using privateDerPrefix_hex by blast
  obtain S where "hexToPem_with privateDerPrefix L k PRIVATE
               = Inr (pem_format PRIVATE (PP @ kb @ S @ pb))"
    using hexToPem_private_any[OF assms(3,5) PP] by blast
  moreover note private_extract[OF PP assms(4), of "S @ pb"]
  ultimately show "pem_roundtrip Buffer_from_base64 L k PRIVATE = Inr (bytesToHex kb)"
    using assms(6)
    by (simp add: pem_roundtrip_def hexToPem_def pemToHex_def base64Content_pem_format)
  obtain PW where PW: "bytesToHex PW = privateDerPrefix_web"
    using privateDerPrefix_web_hex by blast
  obtain S' where "hexToPem_with privateDerPrefix_web L k PRIVATE
               = Inr (pem_format PRIVATE (PW @ kb @ S' @ pb))"
    using hexToPem_private_any[OF assms(3,5) PW] by blast
  moreover note private_extract_web[OF PW assms(4), of "S' @ pb"]
  moreover have "length (bytesToHex kb) = 64" by (simp add: length_bytesToHex assms(4))
  ultimately show "pem_roundtrip_web L k PRIVATE = Inr (bytesToHex kb)"
    by (simp add: pem_roundtrip_web_def hexToPem_web_def pemToHex_web_def
          base64Content_pem_format atob_b64encode)
qed

text \<open>
  The decoder of the browser package, for a PEM public key whose body decodes to the bytes
  \<open>bs\<close>. The marker test comes first: when the hex form of \<open>bs\<close> contains
  \<^verbatim>\<open>034200\<close>, the result is the 66 characters after its first occurrence. Without
  the marker, a body of 33 bytes that begins with 0x02 or 0x03 is returned verbatim, and a
  body shorter than 32 or longer than 65 bytes fails.
\<close>

lemma pemToHex_web_public:
  assumes "atob (base64Content pemKey PUBLIC) = Inr bs"
  shows "(length bs = 33 \<and> (bs ! 0 = 0x02 \<or> bs ! 0 = 0x03)
            \<and> indexOf (bytesToHex bs) ''034200'' = - 1
          \<longrightarrow> pemToHex_web pemKey PUBLIC = Inr (bytesToHex bs))
       \<and> ((length bs < 32 \<or> 65 < length bs) \<and> indexOf (bytesToHex bs) ''034200'' = - 1
          \<longrightarrow> pemToHex_web pemKey PUBLIC = Inl (UnsupportedPublicKeyFormat (length bs)))
       \<and> (indexOf (bytesToHex bs) ''034200'' \<noteq> - 1
          \<longrightarrow> pemToHex_web pemKey PUBLIC
                = Inr (substring (bytesToHex bs) (indexOf (bytesToHex bs) ''034200'' + 6)
                         (indexOf (bytesToHex bs) ''034200'' + 6 + 66)))"
  using assms by (simp add: pemToHex_web_def Let_def)

text \<open>
  On the two keys of the package's PEM tests the browser decoder does what the tests
  expect; a compressed key whose bytes contain \<^verbatim>\<open>03 42 00\<close> is cut after the marker.
\<close>

lemma pemToHex_web_test_keys:
  "pemToHex_web raw_key_pem PUBLIC = Inr raw_key_hex
   \<and> pemToHex_web short_key_pem PUBLIC = Inl (UnsupportedPublicKeyFormat 2)
   \<and> pemToHex_web marker_key_pem PUBLIC
       = Inr marker_key_tail"
proof -
  have a: "length raw_key = 33" "raw_key ! 0 = 0x02" by (simp_all add: raw_key_def)
  have b: "bytesToHex [0x12, 0x34] = ''1234''" by (simp add: hex_eval)
  have c: "indexOf ''1234'' ''034200'' = - 1" by (simp add: indexOf_def)
  have m: "atob (base64Content marker_key_pem PUBLIC) = Inr marker_key"
    by (simp add: marker_key_content marker_key_atob)
  have i: "indexOf (bytesToHex marker_key) ''034200'' = 2"
    by (simp add: marker_key_hex indexOf_def marker_key_tail_def)
  have s: "substring (bytesToHex marker_key) 8 74
             = marker_key_tail"
    by (simp add: marker_key_hex substring_def Let_def marker_key_tail_def)
  show ?thesis
    using pemToHex_web_public[OF raw_key_atob] pemToHex_web_public[OF short_key_atob]
      pemToHex_web_public[OF m] a b c i s raw_key_bytesToHex raw_key_no_marker
    by simp
qed

text \<open>
  The decoder of the host package has none of the tolerant cases: when the marker is not
  found, \<^verbatim>\<open>indexOf\<close> is -1 and the result is the hex text from position 5, for any
  length.
\<close>

lemma pemToHex_without_marker:
  "indexOf (bytesToHex (Buffer_from_base64 (base64Content pemKey PUBLIC))) ''034200'' = - 1 \<Longrightarrow>
     pemToHex Buffer_from_base64 pemKey PUBLIC
       = substring (bytesToHex (Buffer_from_base64 (base64Content pemKey PUBLIC))) 5 71"
  by (simp add: pemToHex_def Let_def)

lemma test_key_bodies:
  "base64Content raw_key_pem PUBLIC = ''Ao9JyxW0ZJ1XgowrrdbmwyvcwBDzdTxhd2Q+yFlZ7EKs''"
  "base64Content short_key_pem PUBLIC = ''EjQ=''"
  by (simp_all add: pem_eval raw_key_pem_def short_key_pem_def)

text \<open>
  Claim C6 at the decoder of the host package (\<^verbatim>\<open>packages/security/src/crypto.ts\<close>),
  on the inputs of the package's own PEM tests. The claim, those tests and the browser
  copy of the decoder agree: the raw 33-byte compressed key comes back verbatim, and a
  2-byte body is rejected. The host decoder does neither. Whatever decoder
  \<^verbatim>\<open>Buffer\<close> is, as long as it decodes the two bodies to their bytes, the raw key
  comes back without its first five hex digits (61 digits, not the key), and the 2-byte
  body gives the empty string: a value is returned, nothing is thrown.
\<close>

theorem C6_host_pemToHex:
  assumes "Buffer_from_base64 ''Ao9JyxW0ZJ1XgowrrdbmwyvcwBDzdTxhd2Q+yFlZ7EKs'' = raw_key"
    and "Buffer_from_base64 ''EjQ='' = [0x12, 0x34]"
  shows "length raw_key = 33 \<and> raw_key ! 0 = 0x02
         \<and> pemToHex Buffer_from_base64 raw_key_pem PUBLIC = drop 5 (bytesToHex raw_key)
         \<and> length (pemToHex Buffer_from_base64 raw_key_pem PUBLIC) = 61
         \<and> pemToHex Buffer_from_base64 raw_key_pem PUBLIC \<noteq> bytesToHex raw_key
         \<and> pemToHex Buffer_from_base64 short_key_pem PUBLIC = []"
proof -
  have l: "length raw_key = 33" "raw_key ! 0 = 0x02" by (simp_all add: raw_key_def)
  have "pemToHex Buffer_from_base64 raw_key_pem PUBLIC = substring raw_key_hex 5 71"
    using pemToHex_without_marker[of Buffer_from_base64 raw_key_pem] raw_key_no_marker
    by (simp add: assms test_key_bodies raw_key_bytesToHex)
  also have "\<dots> = drop 5 raw_key_hex"
    by (simp add: substring_def Let_def raw_key_hex_def)
  finally have r: "pemToHex Buffer_from_base64 raw_key_pem PUBLIC = drop 5 (bytesToHex raw_key)"
    by (simp add: raw_key_bytesToHex)
  have n: "length (drop 5 (bytesToHex raw_key)) = 61" "drop 5 (bytesToHex raw_key) \<noteq> bytesToHex raw_key"
    by (simp_all add: raw_key_bytesToHex raw_key_hex_def)
  have b: "bytesToHex [0x12, 0x34] = ''1234''" by (simp add: hex_eval)
  have c: "indexOf ''1234'' ''034200'' = - 1" by (simp add: indexOf_def)
  have "pemToHex Buffer_from_base64 short_key_pem PUBLIC = substring ''1234'' 5 71"
    using pemToHex_without_marker[of Buffer_from_base64 short_key_pem] c
    by (simp add: assms test_key_bodies b)
  also have "\<dots> = []" by (simp add: substring_def Let_def)
  finally have s: "pemToHex Buffer_from_base64 short_key_pem PUBLIC = []" .
  show ?thesis using l r n s by simp
qed

theorem C6_witness:
  "decode_or_empty ''Ao9JyxW0ZJ1XgowrrdbmwyvcwBDzdTxhd2Q+yFlZ7EKs'' = raw_key
   \<and> decode_or_empty ''EjQ='' = [0x12, 0x34]
   \<and> bytesToHex raw_key = raw_key_hex
   \<and> pemToHex decode_or_empty raw_key_pem PUBLIC
       = ''9cb15b4649d57828c2badd6e6c32bdcc010f3753c6177643ec85959ec42ac''
   \<and> pemToHex decode_or_empty short_key_pem PUBLIC = []"
proof -
  have a: "decode_or_empty ''Ao9JyxW0ZJ1XgowrrdbmwyvcwBDzdTxhd2Q+yFlZ7EKs'' = raw_key"
    using raw_key_atob by (simp add: decode_or_empty_def test_key_bodies)
  have b: "decode_or_empty ''EjQ='' = [0x12, 0x34]"
    using short_key_atob by (simp add: decode_or_empty_def test_key_bodies)
  have d: "drop 5 raw_key_hex = ''9cb15b4649d57828c2badd6e6c32bdcc010f3753c6177643ec85959ec42ac''"
    by (simp add: raw_key_hex_def)
  show ?thesis
    using C6_host_pemToHex[OF a b] a b d by (simp add: raw_key_bytesToHex)
qed

section \<open>Properties of the key manager\<close>







lemma written_paths [simp]:
  "getPublicKeyPath (fs\<lparr>files := f\<rparr>) keyId = getPublicKeyPath fs keyId"
  "getPrivateKeyPath (fs\<lparr>files := f\<rparr>) keyId = getPrivateKeyPath fs keyId"
  "getMetadataPath (fs\<lparr>files := f\<rparr>) keyId = getMetadataPath fs keyId"
  "writable (fs\<lparr>files := f\<rparr>) p = writable fs p"
  by (simp_all add: getPublicKeyPath_def getPrivateKeyPath_def getMetadataPath_def
        TRUSTED_KEYS_DIR_def PRIVATE_KEYS_DIR_def writable_def is_dir_def)












end
